theory Spec2Isabelle
  imports Complex_Main "HOL-Library.Finite_Map"
begin

section \<open>Shape inference: bounding-box axis classification\<close>

text \<open>
  The exporter classifies the three bounding-box dimensions of a body with
  \<open>get_major_axis\<close>, \<open>get_median_axis\<close> and \<open>get_minor_axis\<close>.
  Dimensions are Python floats; they are modelled as reals, so the comparisons below are
  the exact ones. A dimension vector is a triple, read by index like the Python sequence.
\<close>

type_synonym dims = "real \<times> real \<times> real"

fun dim :: "dims \<Rightarrow> nat \<Rightarrow> real" where
  "dim (x, y, z) i = (if i = 0 then x else if i = 1 then y else z)"

text \<open>\<open>list.index\<close>: the first position of a value (the length of the list when the
  value is absent, where Python raises; every call below looks up an element of the list).\<close>

fun index_of :: "'a list \<Rightarrow> 'a \<Rightarrow> nat" where
  "index_of [] v = 0"
| "index_of (x # xs) v = (if x = v then 0 else Suc (index_of xs v))"

text \<open>The builtins \<open>max\<close> and \<open>min\<close> on a non-empty list.\<close>

fun list_max :: "'a::linorder list \<Rightarrow> 'a" where
  "list_max [] = undefined"
| "list_max [x] = x"
| "list_max (x # y # ys) = max x (list_max (y # ys))"

fun list_min :: "'a::linorder list \<Rightarrow> 'a" where
  "list_min [] = undefined"
| "list_min [x] = x"
| "list_min (x # y # ys) = min x (list_min (y # ys))"

text \<open>The dictionary \<open>{0: 'x', 1: 'y', 2: 'z'}\<close>.\<close>

definition axis :: "nat \<Rightarrow> char" where
  "axis i = (if i = 0 then CHR ''x'' else if i = 1 then CHR ''y'' else CHR ''z'')"

text \<open>The score list \<open>sum_diff\<close> that \<open>get_major_axis\<close> and \<open>get_minor_axis\<close> both build.\<close>

definition sum_diff :: "dims \<Rightarrow> real list" where
  "sum_diff d =
     [\<bar>dim d 0 - dim d 1\<bar> + \<bar>dim d 0 - dim d 2\<bar>,
      \<bar>dim d 1 - dim d 0\<bar> + \<bar>dim d 1 - dim d 2\<bar>,
      \<bar>dim d 2 - dim d 0\<bar> + \<bar>dim d 2 - dim d 1\<bar>]"

definition get_major_axis :: "dims \<Rightarrow> char \<times> nat" where
  "get_major_axis d =
     (let s = sum_diff d;
          axis_idx = (if s ! 0 = s ! 1 \<and> s ! 1 = s ! 2 then 2
                      else index_of s (list_max s))
      in (axis axis_idx, axis_idx))"

definition get_minor_axis :: "dims \<Rightarrow> char \<times> nat" where
  "get_minor_axis d =
     (let s = sum_diff d;
          max_idx = index_of s (list_max s);
          min_idx = index_of s (list_min s);
          sort_idx = ([1, 1, 1::nat])[max_idx := 0];
          sort_idx = sort_idx[min_idx := 0];
          median_idx = index_of sort_idx (list_max sort_idx)
      in (axis median_idx, median_idx))"

definition get_median_axis :: "dims \<Rightarrow> char \<times> nat" where
  "get_median_axis d =
     (let (maj_ax, maj_ax_idx) = get_major_axis d;
          (min_ax, min_ax_idx) = get_minor_axis d;
          med_axis_idx = ([1, 1, 1::nat])[maj_ax_idx := 0];
          med_axis_idx = med_axis_idx[min_ax_idx := 0];
          axis_idx = index_of med_axis_idx (list_max med_axis_idx)
      in (axis axis_idx, axis_idx))"



text \<open>
  Both \<open>get_minor_axis\<close> and \<open>get_median_axis\<close> end by zeroing two positions of
  \<open>[1, 1, 1]\<close> and taking the first position of the maximum. For positions \<open>i\<close> and
  \<open>j\<close> below 3 that position is \<open>rest_idx i j\<close> (lemma \<open>rest3\<close>).
\<close>

definition rest_idx :: "nat \<Rightarrow> nat \<Rightarrow> nat" where
  "rest_idx i j = (if i = j then (if i = 0 then 1 else 0) else 3 - i - j)"


section \<open>Exporter: joint axis and joint parameters\<close>

text \<open>
  A rigid-body constraint of the host, as \<open>get_joint_axis\<close> and \<open>assign_joint_params\<close>
  read it. The attributes \<open>use_limit_lin_x\<close>, \<open>limit_ang_z_upper\<close>,
  \<open>use_spring_ang_y\<close>, \<open>spring_damping_x\<close> and so on are indexed by the degree of
  freedom they name: \<open>use_limit c lin_x\<close>, \<open>limit_upper c ang_z\<close>,
  \<open>use_spring c ang_y\<close>, \<open>spring_damping c lin_x\<close>. The constraint kinds are those of
  the host; \<open>generate_joint_data\<close> exports the first six only.
\<close>

datatype constraint_type = FIXED | HINGE | SLIDER | POINT | GENERIC | GENERIC_SPRING | PISTON | MOTOR

datatype dof = lin_x | lin_y | lin_z | ang_x | ang_y | ang_z

record constraint =
  ctype :: constraint_type
  use_limit :: "dof \<Rightarrow> bool"
  limit_lower :: "dof \<Rightarrow> real"
  limit_upper :: "dof \<Rightarrow> real"
  use_spring :: "dof \<Rightarrow> bool"
  spring_damping :: "dof \<Rightarrow> real"
  spring_stiffness :: "dof \<Rightarrow> real"

text \<open>The Python exceptions the modelled code can raise; the string is the key or the name.\<close>

datatype error =
  KeyError string | UnboundLocalError string | ValueError string | ZeroDivisionError
  | AttributeError string

type_synonym vec = "real \<times> real \<times> real"

fun vec_set :: "vec \<Rightarrow> nat \<Rightarrow> real \<Rightarrow> vec" where
  "vec_set (x, y, z) i v = (if i = 0 then (v, y, z) else if i = 1 then (x, v, z) else (x, y, v))"

text \<open>
  \<open>get_joint_axis\<close>. The local \<open>ax_idx\<close> is assigned on some branches only; reading it
  unassigned raises \<open>UnboundLocalError\<close>.
\<close>

definition get_joint_axis :: "constraint \<Rightarrow> error + (vec \<times> nat)" where
  "get_joint_axis c =
     (let ax_idx =
        (case ctype c of
           HINGE \<Rightarrow> Some 2
         | SLIDER \<Rightarrow> Some 0
         | GENERIC \<Rightarrow>
             (if use_limit c lin_x \<or> use_limit c ang_x then Some 0
              else if use_limit c lin_y \<or> use_limit c ang_y then Some 1
              else if use_limit c lin_z \<or> use_limit c ang_z then Some 2
              else Some 2)
         | GENERIC_SPRING \<Rightarrow>
             (if use_limit c lin_x \<or> use_limit c ang_x then Some 0
              else if use_limit c lin_y \<or> use_limit c ang_y then Some 1
              else if use_limit c lin_z \<or> use_limit c ang_z then Some 2
              else None)
         | POINT \<Rightarrow> Some 2
         | FIXED \<Rightarrow> Some 2
         | _ \<Rightarrow> None)
      in case ax_idx of
           None \<Rightarrow> Inl (UnboundLocalError ''ax_idx'')
         | Some i \<Rightarrow> Inr (vec_set (0, 0, 0) i 1, i))"

text \<open>
  The part of a joint record that \<open>assign_joint_params\<close> reads and writes: the keys
  \<open>type\<close>, \<open>joint limits\<close> (a dictionary with the keys \<open>low\<close> and \<open>high\<close>),
  \<open>damping\<close> and \<open>stiffness\<close>. A key that is absent is \<open>None\<close>.
\<close>

record limits =
  low :: "real option"
  high :: "real option"

record joint_data =
  jtype :: "string option"
  joint_limits :: "limits option"
  damping :: "real option"
  stiffness :: "real option"

text \<open>\<open>JointTemplate\<close>: a new record has joint limits and no type.\<close>

definition JointTemplate :: joint_data where
  "JointTemplate =
     \<lparr>jtype = None, joint_limits = Some \<lparr>low = Some (- 1.2), high = Some 1.2\<rparr>,
      damping = None, stiffness = None\<rparr>"

text \<open>
  The branches of \<open>assign_joint_params\<close> that set the type and the locals
  \<open>higher_limit\<close> and \<open>lower_limit\<close> from one degree of freedom. The locals are
  returned as the pair \<open>(higher_limit, lower_limit)\<close>, \<open>None\<close> while unassigned.
\<close>

definition limited :: "string \<Rightarrow> dof \<Rightarrow> constraint \<Rightarrow> joint_data \<Rightarrow> joint_data \<times> (real \<times> real) option" where
  "limited t d c jd = (jd\<lparr>jtype := Some t\<rparr>, Some (limit_upper c d, limit_lower c d))"

definition spring :: "string \<Rightarrow> dof \<Rightarrow> constraint \<Rightarrow> joint_data \<Rightarrow> joint_data \<times> (real \<times> real) option" where
  "spring t d c jd =
     ((if use_spring c d
       then jd\<lparr>jtype := Some t, damping := Some (spring_damping c d),
               stiffness := Some (spring_stiffness c d)\<rparr>
       else jd\<lparr>jtype := Some t\<rparr>),
      Some (limit_upper c d, limit_lower c d))"

text \<open>
  \<open>assign_joint_params\<close>. The argument \<open>round3\<close> is the builtin \<open>round(\<cdot>, 3)\<close> on floats.
  Reading \<open>joint_data['type']\<close> when no branch has set it raises \<open>KeyError\<close>.
\<close>

definition assign_joint_params ::
    "(real \<Rightarrow> real) \<Rightarrow> constraint \<Rightarrow> joint_data \<Rightarrow> error + joint_data" where
  "assign_joint_params round3 c joint_data =
     (let (jd, lims) =
        (case ctype c of
           HINGE \<Rightarrow>
             (if use_limit c ang_z then limited ''revolute'' ang_z c joint_data
              else (joint_data\<lparr>jtype := Some ''continuous''\<rparr>, None))
         | SLIDER \<Rightarrow> limited ''prismatic'' lin_x c joint_data
         | GENERIC \<Rightarrow>
             (if use_limit c lin_x then limited ''prismatic'' lin_x c joint_data
              else if use_limit c lin_y then limited ''prismatic'' lin_y c joint_data
              else if use_limit c lin_z then limited ''prismatic'' lin_z c joint_data
              else if use_limit c ang_x then limited ''revolute'' ang_x c joint_data
              else if use_limit c ang_y then limited ''revolute'' ang_y c joint_data
              else if use_limit c ang_z then limited ''revolute'' ang_z c joint_data
              else (joint_data, None))
         | GENERIC_SPRING \<Rightarrow>
             (if use_limit c lin_x then spring ''linear spring'' lin_x c joint_data
              else if use_limit c lin_y then spring ''linear spring'' lin_y c joint_data
              else if use_limit c lin_z then spring ''linear spring'' lin_z c joint_data
              else if use_limit c ang_x then spring ''torsion spring'' ang_x c joint_data
              else if use_limit c ang_y then spring ''torsion spring'' ang_y c joint_data
              else if use_limit c ang_z then spring ''torsion spring'' ang_z c joint_data
              else (joint_data, None))
         | POINT \<Rightarrow> (joint_data\<lparr>jtype := Some ''p2p''\<rparr>, None)
         | FIXED \<Rightarrow> (joint_data\<lparr>jtype := Some ''fixed''\<rparr>, None)
         | _ \<Rightarrow> (joint_data, None))
      in case jtype jd of
           None \<Rightarrow> Inl (KeyError ''type'')
         | Some t \<Rightarrow>
             (if t = ''fixed'' \<or> t = ''p2p'' then
                (case joint_limits jd of
                   None \<Rightarrow> Inl (KeyError ''joint limits'')
                 | Some l \<Rightarrow> Inr (jd\<lparr>joint_limits := None\<rparr>))
              else if t = ''continuous'' then
                (case joint_limits jd of
                   None \<Rightarrow> Inl (KeyError ''joint limits'')
                 | Some l \<Rightarrow>
                     (if low l = None then Inl (KeyError ''low'')
                      else if high l = None then Inl (KeyError ''high'')
                      else Inr (jd\<lparr>joint_limits := Some \<lparr>low = None, high = None\<rparr>\<rparr>)))
              else
                (case joint_limits jd of
                   None \<Rightarrow> Inl (KeyError ''joint limits'')
                 | Some l \<Rightarrow>
                     (case lims of
                        None \<Rightarrow> Inl (UnboundLocalError ''lower_limit'')
                      | Some (higher_limit, lower_limit) \<Rightarrow>
                          Inr (jd\<lparr>joint_limits :=
                                 Some \<lparr>low = Some (round3 lower_limit),
                                       high = Some (round3 higher_limit)\<rparr>\<rparr>)))))"

text \<open>
  The order in which \<open>generate_joint_data\<close> reaches the two functions for a constraint it
  exports: the joint axis first (through \<open>compute_pivot_and_axis\<close>, and directly for a
  joint that is not detached), then the parameters of a new \<open>JointTemplate\<close>. The pivots,
  the axes of the parent and the offset angle come from the host's matrices and are not
  part of this value.
\<close>

definition generate_joint_params ::
    "(real \<Rightarrow> real) \<Rightarrow> constraint \<Rightarrow> error + ((vec \<times> nat) \<times> joint_data)" where
  "generate_joint_params round3 c =
     (case get_joint_axis c of
        Inl e \<Rightarrow> Inl e
      | Inr ax \<Rightarrow>
          (case assign_joint_params round3 c JointTemplate of
             Inl e \<Rightarrow> Inl e
           | Inr jd \<Rightarrow> Inr (ax, jd)))"

text \<open>
  The degree of freedom whose limits a joint record carries, in the words of the
  classification table: a limited hinge uses the angular z limits, a slider the linear x
  limits, a generic or generic-spring constraint its first active limit flag, the linear
  ones before the angular ones.
\<close>

definition first_active_limit :: "constraint \<Rightarrow> dof option" where
  "first_active_limit c =
     (if use_limit c lin_x then Some lin_x
      else if use_limit c lin_y then Some lin_y
      else if use_limit c lin_z then Some lin_z
      else if use_limit c ang_x then Some ang_x
      else if use_limit c ang_y then Some ang_y
      else if use_limit c ang_z then Some ang_z
      else None)"

definition limit_dof :: "constraint \<Rightarrow> dof option" where
  "limit_dof c =
     (case ctype c of
        HINGE \<Rightarrow> (if use_limit c ang_z then Some ang_z else None)
      | SLIDER \<Rightarrow> Some lin_x
      | GENERIC \<Rightarrow> first_active_limit c
      | GENERIC_SPRING \<Rightarrow> first_active_limit c
      | _ \<Rightarrow> None)"

text \<open>
  An instance of the builtin \<open>round(\<cdot>, 3)\<close> for the examples below: the nearest multiple of
  \<open>0.001\<close>. The examples use values with at most three decimals, which every rounding to
  three decimals leaves as they are.
\<close>

definition round_to_3 :: "real \<Rightarrow> real" where
  "round_to_3 x = of_int (round (x * 1000)) / 1000"

text \<open>Example constraints: a hinge limited to \<open>[-1.5, 1.5]\<close>, and a generic constraint and a
  generic spring with no limit flag set.\<close>

definition limited_hinge :: constraint where
  "limited_hinge =
     \<lparr>ctype = HINGE, use_limit = (\<lambda>d. d = ang_z), limit_lower = (\<lambda>d. - 1.5),
      limit_upper = (\<lambda>d. 1.5), use_spring = (\<lambda>d. False), spring_damping = (\<lambda>d. 0),
      spring_stiffness = (\<lambda>d. 0)\<rparr>"

definition free_generic :: constraint where
  "free_generic =
     \<lparr>ctype = GENERIC, use_limit = (\<lambda>d. False), limit_lower = (\<lambda>d. 0),
      limit_upper = (\<lambda>d. 0), use_spring = (\<lambda>d. False), spring_damping = (\<lambda>d. 0),
      spring_stiffness = (\<lambda>d. 0)\<rparr>"

definition free_generic_spring :: constraint where
  "free_generic_spring = free_generic\<lparr>ctype := GENERIC_SPRING\<rparr>"


section \<open>Importer: collision groups of a body\<close>

text \<open>
  \<open>load_blender_rigid_body\<close> (legacy mode) and \<open>load_ambf_rigid_body\<close> (native mode) end
  with the same loop over the \<open>collision groups\<close> list of the body's record, the first on
  the host's \<open>rigid_body.collision_groups\<close>, the second on the object's
  \<open>ambf_rigid_body_collision_groups\<close>; both are vectors of 20 flags. The state of the loop
  is the flag vector and the lines printed so far.
\<close>

definition group_warning :: string where
  "group_warning = ''WARNING, Collision Group Outside [0-20]''"

fun collision_groups_loop :: "int list \<Rightarrow> bool list \<times> string list \<Rightarrow> bool list \<times> string list" where
  "collision_groups_loop [] st = st"
| "collision_groups_loop (grp # col_groups) (flags, out) =
     (if 0 \<le> grp \<and> grp < 20
      then collision_groups_loop col_groups (flags[nat grp := True], out)
      else collision_groups_loop col_groups (flags, out @ [group_warning]))"

text \<open>The group 0 is cleared first, then the loop runs.\<close>

definition load_collision_groups :: "int list \<Rightarrow> bool list \<times> string list \<Rightarrow> bool list \<times> string list" where
  "load_collision_groups col_groups st = collision_groups_loop col_groups ((fst st)[0 := False], snd st)"

text \<open>
  The object a body is loaded into, with the two flag vectors, and the part of the two
  loaders that reads the \<open>collision groups\<close> key (absent: \<open>None\<close>). An object that is
  not a mesh is left as it is.
\<close>

record body_object =
  object_type :: string
  collision_groups :: "bool list"
  ambf_rigid_body_collision_groups :: "bool list"

definition load_blender_rigid_body ::
    "int list option \<Rightarrow> body_object \<times> string list \<Rightarrow> body_object \<times> string list" where
  "load_blender_rigid_body body_groups st =
     (let (obj_handle, out) = st in
      if object_type obj_handle = ''MESH'' then
        (case body_groups of
           None \<Rightarrow> st
         | Some col_groups \<Rightarrow>
             (let (flags, out') = load_collision_groups col_groups (collision_groups obj_handle, out)
              in (obj_handle\<lparr>collision_groups := flags\<rparr>, out')))
      else st)"

definition load_ambf_rigid_body ::
    "int list option \<Rightarrow> body_object \<times> string list \<Rightarrow> body_object \<times> string list" where
  "load_ambf_rigid_body body_groups st =
     (let (obj_handle, out) = st in
      if object_type obj_handle = ''MESH'' then
        (case body_groups of
           None \<Rightarrow> st
         | Some col_groups \<Rightarrow>
             (let (flags, out') =
                    load_collision_groups col_groups (ambf_rigid_body_collision_groups obj_handle, out)
              in (obj_handle\<lparr>ambf_rigid_body_collision_groups := flags\<rparr>, out')))
      else st)"

text \<open>
  A mesh object as the loaders find it: the host sets the group 0 of a new rigid body, and
  the property \<open>ambf_rigid_body_collision_groups\<close> is declared with all 20 flags unset.
\<close>

definition new_mesh_object :: body_object where
  "new_mesh_object =
     \<lparr>object_type = ''MESH'',
      collision_groups = True # replicate 19 False,
      ambf_rigid_body_collision_groups = replicate 20 False\<rparr>"


section \<open>Tree builder: hierarchical traversal\<close>

text \<open>
  The scene as the traversal reads it: \<open>bpy.data.objects\<close> in its storage order, and the
  parent link of every object (\<open>None\<close> for an object without parent). The host computes
  \<open>obj.children\<close> from the parent links, as the objects of \<open>bpy.data.objects\<close> whose
  parent is \<open>obj\<close>, in storage order.
\<close>

record 'a scene =
  objects :: "'a list"
  parent :: "'a \<rightharpoonup> 'a"

definition children :: "'a scene \<Rightarrow> 'a \<Rightarrow> 'a list" where
  "children sc body = filter (\<lambda>child. parent sc child = Some body) (objects sc)"

text \<open>
  \<open>get_grand_parent\<close> follows the parent links until an object has none. The loop does
  not end when the links form a cycle; the result is \<open>None\<close> then.
\<close>

partial_function (option) get_grand_parent :: "'a scene \<Rightarrow> 'a \<Rightarrow> 'a option" where
  "get_grand_parent sc body =
     (case parent sc body of
        None \<Rightarrow> Some body
      | Some p \<Rightarrow> get_grand_parent sc p)"

declare get_grand_parent.simps [code]

text \<open>
  \<open>downward_tree_pass\<close>. Its state is the list \<open>_heirarichal_bodies_list\<close> and the
  dictionary \<open>_added_bodies_list\<close> from objects to flags; looking up an object that is not
  a key raises \<open>KeyError\<close>. The loop over the children is \<open>downward_children\<close>.
\<close>

type_synonym 'a pass_state = "'a list \<times> ('a, bool) fmap"

text \<open>The objects whose flag is still \<open>False\<close>: every pass that adds a body takes one out,
  which is why the recursion ends.\<close>

definition not_added :: "('a, bool) fmap \<Rightarrow> 'a set" where
  "not_added added = {b. fmlookup added b = Some False}"

function downward_tree_pass :: "'a scene \<Rightarrow> 'a option \<Rightarrow> 'a pass_state \<Rightarrow> error + 'a pass_state"
  and downward_children :: "'a scene \<Rightarrow> 'a list \<Rightarrow> 'a pass_state \<Rightarrow> error + 'a pass_state"
where
  "downward_tree_pass sc None st = Inr st"
| "downward_tree_pass sc (Some body) (hl, added) =
     (case fmlookup added body of
        None \<Rightarrow> Inl (KeyError ''_added_bodies_list'')
      | Some True \<Rightarrow> Inr (hl, added)
      | Some False \<Rightarrow>
          downward_children sc (children sc body) (hl @ [body], fmupd body True added))"
| "downward_children sc [] st = Inr st"
| "downward_children sc (child # rest) st =
     (case downward_tree_pass sc (Some child) st of
        Inl e \<Rightarrow> Inl e
      | Inr st' \<Rightarrow> downward_children sc rest st')"
  by pat_completeness auto

lemma finite_not_added: "finite (not_added added)"
proof -
  have "not_added added \<subseteq> fmdom' added"
    by (auto simp: not_added_def intro: fmdom'I)
  then show ?thesis
    by (rule finite_subset) simp
qed

lemma not_added_upd: "fmlookup added b = Some False \<Longrightarrow> not_added (fmupd b True added) = not_added added - {b}"
  by (auto simp: not_added_def)

lemma pass_shrinks:
  "downward_tree_pass_downward_children_dom (Inl (sc, b, st)) \<Longrightarrow>
     downward_tree_pass sc b st = Inr st' \<Longrightarrow> not_added (snd st') \<subseteq> not_added (snd st)"
  "downward_tree_pass_downward_children_dom (Inr (sc, cs, st)) \<Longrightarrow>
     downward_children sc cs st = Inr st' \<Longrightarrow> not_added (snd st') \<subseteq> not_added (snd st)"
proof (induction sc b st and sc cs st arbitrary: st' and st' rule: downward_tree_pass_downward_children.pinduct)
  case (1 sc st)
  then show ?case by (simp add: downward_tree_pass.psimps)
next
  case (2 sc body hl added)
  show ?case
  proof (cases "fmlookup added body")
    case None
    with 2 show ?thesis by (simp add: downward_tree_pass.psimps)
  next
    case (Some flag)
    show ?thesis
    proof (cases flag)
      case True
      with Some 2 show ?thesis by (auto simp add: downward_tree_pass.psimps)
    next
      case False
      with Some 2(1,3) have "downward_children sc (children sc body) (hl @ [body], fmupd body True added) = Inr st'"
        by (simp add: downward_tree_pass.psimps)
      from 2(2)[OF _ _ this] Some False
      have "not_added (snd st') \<subseteq> not_added (fmupd body True added)" by simp
      then show ?thesis using Some False by (auto simp: not_added_upd)
    qed
  qed
next
  case (3 sc st)
  then show ?case by (simp add: downward_children.psimps)
next
  case (4 sc child rest st)
  from 4(1,4) obtain st1 where a: "downward_tree_pass sc (Some child) st = Inr st1"
    and b: "downward_children sc rest st1 = Inr st'"
    by (auto simp: downward_children.psimps split: sum.splits)
  from 4(2)[OF a] 4(3)[OF a b] show ?case by blast
qed


lemma card_not_added_upd:
  assumes "fmlookup added b = Some False"
  shows "card (not_added (fmupd b True added)) < card (not_added added)"
proof -
  have "b \<in> not_added added" using assms by (simp add: not_added_def)
  then show ?thesis
    unfolding not_added_upd[OF assms] using finite_not_added[of added]
    by (rule card_Diff1_less[rotated])
qed

termination downward_tree_pass
proof (relation "measures
    [\<lambda>x. case x of Inl (sc, b, st) \<Rightarrow> card (not_added (snd st))
                  | Inr (sc, cs, st) \<Rightarrow> card (not_added (snd st)),
     \<lambda>x. case x of Inl (sc, b, st) \<Rightarrow> 0 | Inr (sc, cs, st) \<Rightarrow> Suc (length cs)]", goal_cases)
  case 1
  then show ?case by simp
next
  case (2 sc body hl added x2)
  then show ?case by (simp add: card_not_added_upd)
next
  case (3 sc child rest st)
  then show ?case by simp
next
  case (4 sc child rest st st')
  have "card (not_added (snd st')) \<le> card (not_added (snd st))"
    by (rule card_mono[OF finite_not_added pass_shrinks(1)[OF 4(2) 4(1)]])
  then show ?case by auto
qed

text \<open>
  \<open>populate_heirarchial_tree\<close>: every object gets the flag \<open>False\<close>; then, for every
  object in storage order, the pass runs from its root ancestor. The result is \<open>None\<close>
  when \<open>get_grand_parent\<close> does not return, \<open>Inl\<close> an exception, \<open>Inr\<close> the list.
\<close>

fun populate_loop :: "'a scene \<Rightarrow> 'a list \<Rightarrow> 'a pass_state \<Rightarrow> (error + 'a pass_state) option" where
  "populate_loop sc [] st = Some (Inr st)"
| "populate_loop sc (obj # rest) st =
     (case get_grand_parent sc obj of
        None \<Rightarrow> None
      | Some grand_parent \<Rightarrow>
          (case downward_tree_pass sc (Some grand_parent) st of
             Inl e \<Rightarrow> Some (Inl e)
           | Inr st' \<Rightarrow> populate_loop sc rest st'))"

definition populate_heirarchial_tree :: "'a scene \<Rightarrow> (error + 'a list) option" where
  "populate_heirarchial_tree sc =
     (let added_bodies_list = fold (\<lambda>obj added. fmupd obj False added) (objects sc) fmempty
      in case populate_loop sc (objects sc) ([], added_bodies_list) of
           None \<Rightarrow> None
         | Some (Inl e) \<Rightarrow> Some (Inl e)
         | Some (Inr st) \<Rightarrow> Some (Inr (fst st)))"

text \<open>
  A scene forest: the parent of an object of the scene is an object of the scene, and the
  parent links have no cycle.
\<close>

definition parent_rel :: "'a scene \<Rightarrow> ('a \<times> 'a) set" where
  "parent_rel sc = {(p, b). b \<in> set (objects sc) \<and> parent sc b = Some p}"

definition forest :: "'a scene \<Rightarrow> bool" where
  "forest sc \<longleftrightarrow>
     (\<forall>b \<in> set (objects sc). \<forall>p. parent sc b = Some p \<longrightarrow> p \<in> set (objects sc)) \<and>
     acyclic (parent_rel sc)"

text \<open>
  The invariant of the traversal state: the keys of the dictionary are the objects of the
  scene, the flag of an object is \<open>True\<close> exactly when it is in the list, the list has no
  duplicate, and the parent of a listed object is listed at an earlier position.
\<close>

definition pass_inv :: "'a scene \<Rightarrow> 'a pass_state \<Rightarrow> bool" where
  "pass_inv sc st \<longleftrightarrow>
     fmdom' (snd st) = set (objects sc) \<and>
     (\<forall>b. fmlookup (snd st) b = Some True \<longleftrightarrow> b \<in> set (fst st)) \<and>
     distinct (fst st) \<and>
     (\<forall>i < length (fst st). \<forall>p. parent sc (fst st ! i) = Some p \<longrightarrow> (\<exists>j < i. fst st ! j = p))"

text \<open>All children of the listed bodies are listed, except for the bodies in \<open>B\<close>, whose
  children the traversal is still visiting.\<close>

definition closed_except :: "'a scene \<Rightarrow> 'a set \<Rightarrow> 'a list \<Rightarrow> bool" where
  "closed_except sc B hl \<longleftrightarrow> (\<forall>b \<in> set hl - B. set (children sc b) \<subseteq> set hl)"

text \<open>An example scene: the chain \<open>0 \<rightarrow> 1 \<rightarrow> 2\<close> and the single root \<open>3\<close>, stored in the order
  \<open>2, 0, 3, 1\<close>.\<close>

definition example_scene :: "nat scene" where
  "example_scene = \<lparr>objects = [2, 0, 3, 1], parent = [1 \<mapsto> 0, 2 \<mapsto> 1]\<rparr>"


section \<open>Geometry kernel\<close>

text \<open>
  Vectors are triples of reals and 3 by 3 matrices are triples of rows. The products are
  those of the host's \<open>mathutils\<close>: \<open>dot\<close>, \<open>cross\<close>, and on matrices the sum, the
  matrix product (the operator \<open>*\<close> of two matrices) and the product with a number.
\<close>

type_synonym mat3 = "vec \<times> vec \<times> vec"

fun dot :: "vec \<Rightarrow> vec \<Rightarrow> real" where
  "dot (a, b, c) (x, y, z) = a * x + b * y + c * z"

fun cross :: "vec \<Rightarrow> vec \<Rightarrow> vec" where
  "cross (a, b, c) (x, y, z) = (b * z - c * y, c * x - a * z, a * y - b * x)"

definition Identity3 :: mat3 where
  "Identity3 = ((1, 0, 0), (0, 1, 0), (0, 0, 1))"

fun vec_add :: "vec \<Rightarrow> vec \<Rightarrow> vec" where
  "vec_add (a, b, c) (x, y, z) = (a + x, b + y, c + z)"

fun vec_scale :: "vec \<Rightarrow> real \<Rightarrow> vec" where
  "vec_scale (a, b, c) k = (a * k, b * k, c * k)"

fun mat_add :: "mat3 \<Rightarrow> mat3 \<Rightarrow> mat3" where
  "mat_add (r1, r2, r3) (s1, s2, s3) = (vec_add r1 s1, vec_add r2 s2, vec_add r3 s3)"

fun mat_scale :: "mat3 \<Rightarrow> real \<Rightarrow> mat3" where
  "mat_scale (r1, r2, r3) k = (vec_scale r1 k, vec_scale r2 k, vec_scale r3 k)"

fun mat_col :: "mat3 \<Rightarrow> nat \<Rightarrow> vec" where
  "mat_col ((a, b, c), (d, e, f), (g, h, i)) n =
     (if n = 0 then (a, d, g) else if n = 1 then (b, e, h) else (c, f, i))"

fun mat_mul :: "mat3 \<Rightarrow> mat3 \<Rightarrow> mat3" where
  "mat_mul (r1, r2, r3) m =
     ((dot r1 (mat_col m 0), dot r1 (mat_col m 1), dot r1 (mat_col m 2)),
      (dot r2 (mat_col m 0), dot r2 (mat_col m 1), dot r2 (mat_col m 2)),
      (dot r3 (mat_col m 0), dot r3 (mat_col m 1), dot r3 (mat_col m 2)))"

text \<open>\<open>skew_mat\<close> and \<open>vec_norm\<close>, as the source writes them.\<close>

fun skew_mat :: "vec \<Rightarrow> mat3" where
  "skew_mat (x, y, z) = ((0, - z, y), (z, 0, - x), (- y, x, 0))"

fun vec_norm :: "vec \<Rightarrow> real" where
  "vec_norm (x, y, z) = sqrt (x\<^sup>2 + y\<^sup>2 + z\<^sup>2)"

text \<open>
  \<open>rot_matrix_from_vecs\<close>. Two operations of \<open>mathutils\<close> are parameters:
  \<open>angle\<close> is \<open>Vector.angle\<close>, which raises \<open>ValueError\<close> for a vector of length zero
  (\<open>None\<close>), and \<open>Rotation\<close> is \<open>Matrix.Rotation(angle, 3, axis)\<close>. The float division
  raises \<open>ZeroDivisionError\<close> for a divisor zero.
\<close>

definition rot_matrix_from_vecs ::
    "(vec \<Rightarrow> vec \<Rightarrow> real option) \<Rightarrow> (real \<Rightarrow> vec \<Rightarrow> mat3) \<Rightarrow> vec \<Rightarrow> vec \<Rightarrow> error + mat3" where
  "rot_matrix_from_vecs angle Rotation v1 v2 =
     (let out = Identity3;
          vcross = cross v1 v2;
          vdot = dot v1 v2
      in case angle v1 v2 of
           None \<Rightarrow> Inl (ValueError ''angle'')
         | Some rot_angle \<Rightarrow>
             (if 1 - vdot < 0.1 then Inr out
              else if 1 + vdot < 0.1 then
                (let nx = (1, 0, 0) in
                 case angle v1 nx of
                   None \<Rightarrow> Inl (ValueError ''angle'')
                 | Some temp_ang \<Rightarrow>
                     (if 0.1 < \<bar>temp_ang\<bar> \<and> \<bar>temp_ang\<bar> < 3.13
                      then Inr (Rotation rot_angle (cross v1 nx))
                      else (let ny = (0, 1, 0) in Inr (Rotation rot_angle (cross v1 ny)))))
              else
                (let skew_v = skew_mat vcross in
                 if (vec_norm vcross)\<^sup>2 = 0 then Inl ZeroDivisionError
                 else Inr (mat_add (mat_add Identity3 skew_v)
                             (mat_scale (mat_mul skew_v skew_v)
                                ((1 - vdot) / (vec_norm vcross)\<^sup>2))))))"

text \<open>
  \<open>get_rot_mat_from_vecs\<close>, which returns the rotation and the angle. Here \<open>Rotation\<close>
  is \<open>Matrix.Rotation(angle, 4, axis)\<close>; the importer only passes its matrices on, so
  their type is a parameter.
\<close>

definition get_rot_mat_from_vecs ::
    "(vec \<Rightarrow> vec \<Rightarrow> real option) \<Rightarrow> (real \<Rightarrow> vec \<Rightarrow> 'm) \<Rightarrow> vec \<Rightarrow> vec \<Rightarrow> error + ('m \<times> real)" where
  "get_rot_mat_from_vecs angle Rotation vecA vecB =
     (case angle vecA vecB of
        None \<Rightarrow> Inl (ValueError ''angle'')
      | Some ang \<Rightarrow>
          (if \<bar>ang\<bar> \<le> 0.1 then Inr (Rotation ang (0, 1, 0), ang)
           else if \<bar>ang\<bar> \<ge> 3.13 then
             (let nx = (1, 0, 0) in
              case angle vecA nx of
                None \<Rightarrow> Inl (ValueError ''angle'')
              | Some temp_ang \<Rightarrow>
                  (if 0.1 < \<bar>temp_ang\<bar> \<and> \<bar>temp_ang\<bar> < 3.13
                   then Inr (Rotation ang (cross vecA nx), ang)
                   else (let ny = (0, 1, 0) in Inr (Rotation ang (cross vecA ny), ang))))
           else Inr (Rotation ang (cross vecA vecB), ang)))"

text \<open>
  The two operations of \<open>mathutils\<close> by their meaning, for the examples: the angle between
  two vectors, and the rotation by an angle about an axis (the identity for an axis of
  length zero).
\<close>

definition vec_angle :: "vec \<Rightarrow> vec \<Rightarrow> real option" where
  "vec_angle u v =
     (if vec_norm u = 0 \<or> vec_norm v = 0 then None
      else Some (arccos (max (- 1) (min 1 (dot u v / (vec_norm u * vec_norm v))))))"

definition axis_angle_matrix :: "real \<Rightarrow> vec \<Rightarrow> mat3" where
  "axis_angle_matrix a ax =
     (if vec_norm ax = 0 then Identity3
      else (let k = skew_mat (vec_scale ax (1 / vec_norm ax))
            in mat_add (mat_add Identity3 (mat_scale k (sin a)))
                 (mat_scale (mat_mul k k) (1 - cos a))))"

text \<open>
  The rotation as the claim words it: the identity for a dot product above \<open>0.9\<close>; for a
  dot product below \<open>- 0.9\<close> a rotation by \<open>\<pi>\<close> about the cross product of \<open>a\<close> with a
  reference axis, which is the y axis when the angle between \<open>a\<close> and the x axis lies
  between \<open>0.1\<close> and \<open>3.13\<close>, and the x axis otherwise; the Rodrigues formula otherwise.
\<close>

definition rotation_between_as_claimed ::
    "(vec \<Rightarrow> vec \<Rightarrow> real option) \<Rightarrow> (real \<Rightarrow> vec \<Rightarrow> mat3) \<Rightarrow> vec \<Rightarrow> vec \<Rightarrow> mat3" where
  "rotation_between_as_claimed angle Rotation a b =
     (if dot a b > 0.9 then Identity3
      else if dot a b < - 0.9 then
        (let t = the (angle a (1, 0, 0));
             reference = (if 0.1 < \<bar>t\<bar> \<and> \<bar>t\<bar> < 3.13 then (0, 1, 0) else (1, 0, 0))
         in Rotation pi (cross a reference))
      else (let k = skew_mat (cross a b)
            in mat_add (mat_add Identity3 k)
                 (mat_scale (mat_mul k k) ((1 - dot a b) / (vec_norm (cross a b))\<^sup>2))))"


section \<open>Importer: the alignment-correction pass\<close>

text \<open>
  A joint entry of the loaded document, with the keys the pass reads; an absent key is
  \<open>None\<close>. A pivot or an axis is the vector of its \<open>x\<close>, \<open>y\<close> and \<open>z\<close> entries. The
  value of \<open>redundant\<close> and \<open>detached\<close> is a YAML boolean or string.
\<close>

datatype yaml = YBool bool | YStr string

record adf_joint =
  jparent :: "string option"
  jchild :: "string option"
  jkind :: "string option"
  parent_pivot :: "vec option"
  parent_axis :: "vec option"
  child_pivot :: "vec option"
  child_axis :: "vec option"
  redundant :: "yaml option"
  detached :: "yaml option"

text \<open>
  The operations of \<open>mathutils\<close> on 4 by 4 matrices that the pass calls. The pass only
  hands matrices from one call to the next, so the matrix type \<open>'m\<close> and the operations
  are parameters: \<open>Vector.angle\<close> (\<open>None\<close> for the \<open>ValueError\<close> of a vector of
  length zero), \<open>Matrix.Rotation(angle, 4, axis)\<close>, the assignment to \<open>translation\<close>,
  \<open>copy\<close> followed by \<open>invert\<close>, the matrix product, and
  \<open>to_quaternion().to_axis_angle()\<close>.
\<close>

record 'm mathutils =
  mu_angle :: "vec \<Rightarrow> vec \<Rightarrow> real option"
  mu_Rotation :: "real \<Rightarrow> vec \<Rightarrow> 'm"
  mu_translate :: "'m \<Rightarrow> vec \<Rightarrow> 'm"
  mu_inverted :: "'m \<Rightarrow> 'm"
  mu_mul :: "'m \<Rightarrow> 'm \<Rightarrow> 'm"
  mu_axis_angle :: "'m \<Rightarrow> vec \<times> real"

text \<open>
  The state of the importer during the pass: the list \<open>joints\<close> of the document and its
  joint entries, the dictionary \<open>_body_T_j_c\<close>, the dictionary
  \<open>_blender_remapped_body_names\<close>, the type of every object of the host by name, the calls
  of \<open>data.transform\<close> made so far (object name and matrix), and the printed lines.
\<close>

record 'm importer =
  joint_names :: "string list"
  ambf_data :: "string \<rightharpoonup> adf_joint"
  body_T_j_c :: "string \<rightharpoonup> 'm"
  remapped_names :: "string \<rightharpoonup> string"
  object_types :: "string \<rightharpoonup> string"
  transformed :: "(string \<times> 'm) list"
  printed :: "string list"

definition is_detached_joint :: "adf_joint \<Rightarrow> bool" where
  "is_detached_joint joint_data \<longleftrightarrow>
     (redundant joint_data = Some (YBool True) \<or> redundant joint_data = Some (YStr ''True'')) \<or>
     (detached joint_data = Some (YBool True) \<or> detached joint_data = Some (YStr ''True''))"

text \<open>\<open>get_standard_pivot_and_axis_data\<close>: the axis; the pivot is always zero. The type
  is read without a test for the key.\<close>

definition get_standard_axis :: "adf_joint \<Rightarrow> error + vec" where
  "get_standard_axis joint_data =
     (case jkind joint_data of
        None \<Rightarrow> Inl (KeyError ''type'')
      | Some t \<Rightarrow>
          (if t \<in> {''hinge'', ''continuous'', ''revolute'', ''fixed''} then Inr (0, 0, 1)
           else if t \<in> {''prismatic'', ''slider''} then Inr (1, 0, 0)
           else if t \<in> {''spring'', ''linear spring''} then Inr (1, 0, 0)
           else if t \<in> {''angular spring'', ''torsional spring'', ''torsion spring''} then Inr (0, 0, 1)
           else if t \<in> {''p2p'', ''point2point''} then Inr (0, 0, 1)
           else Inr (0, 0, 1)))"

text \<open>The line printed for a detached joint; \<open>CHR 0x22\<close> is the double quote around
  the name and \<open>CHR 0x27\<close> the apostrophe.\<close>

definition detached_info :: "string \<Rightarrow> string" where
  "detached_info joint_name =
     ''INFO, JOINT '' @ [CHR 0x22] @ joint_name @ [CHR 0x22] @
     '' IS DETACHED, NO NEED TO ADJUST CHILD BODY'' @ [CHR 0x27] @ ''S AXIS AND PIVOTS''"

definition axis_warning :: string where
  "axis_warning = ''*** WARNING: AXIS ALIGNMENT LOGIC ERROR''"

text \<open>
  The values the first half of the loop body hands to the alignment-offset half.
\<close>

record 'm adjust_ctx =
  ctx_child :: string
  ctx_object :: string
  ctx_object_type :: string
  ctx_constraint_axis :: vec
  ctx_child_axis :: vec
  ctx_parent_axis :: vec
  ctx_T_c_j :: "'m"

text \<open>
  The loop body of \<open>adjust_body_pivots_and_axis\<close> for a joint that has a child pivot and
  is not detached, up to the comment that opens the alignment-offset algorithm: the child
  pivot and axis of the entry become the standard ones, the mesh of a child that is not an
  empty is transformed by \<open>T_c_j\<close>, and \<open>T_c_j\<close> is recorded for the child. The child
  axis entry is written back only when the document has the key.
\<close>

definition primary_adjust ::
    "'m mathutils \<Rightarrow> string \<Rightarrow> adf_joint \<Rightarrow> 'm importer \<Rightarrow> error + ('m adjust_ctx \<times> 'm importer)" where
  "primary_adjust mu joint_name joint_data st =
     (case jchild joint_data of
        None \<Rightarrow> Inl (KeyError ''child'')
      | Some child_body_name \<Rightarrow>
     (let parent_axis_data = (case parent_axis joint_data of None \<Rightarrow> (0, 0, 1) | Some a \<Rightarrow> a);
          child_pivot_data = (case child_pivot joint_data of None \<Rightarrow> (0, 0, 0) | Some p \<Rightarrow> p);
          child_axis_data = (case child_axis joint_data of None \<Rightarrow> (0, 0, 1) | Some a \<Rightarrow> a)
      in case remapped_names st child_body_name of
        None \<Rightarrow> Inl (KeyError child_body_name)
      | Some object_name \<Rightarrow>
     (case object_types st object_name of
        None \<Rightarrow> Inl (KeyError object_name)
      | Some obj_type \<Rightarrow>
     (case get_standard_axis joint_data of
        Inl e \<Rightarrow> Inl e
      | Inr constraint_axis \<Rightarrow>
     (case get_rot_mat_from_vecs (mu_angle mu) (mu_Rotation mu) constraint_axis child_axis_data of
        Inl e \<Rightarrow> Inl e
      | Inr (R_j_c, d_angle) \<Rightarrow>
     (let T_j_c = mu_translate mu R_j_c child_pivot_data;
          T_c_j = mu_inverted mu T_j_c;
          joint_data' = joint_data
            \<lparr>child_pivot := Some (0, 0, 0),
             child_axis := (if child_axis joint_data = None then None else Some constraint_axis)\<rparr>;
          st' = st
            \<lparr>ambf_data := (ambf_data st)(joint_name \<mapsto> joint_data'),
             body_T_j_c := (body_T_j_c st)(child_body_name \<mapsto> T_c_j),
             transformed := (if obj_type \<noteq> ''EMPTY''
                             then transformed st @ [(object_name, T_c_j)]
                             else transformed st)\<rparr>
      in Inr (\<lparr>ctx_child = child_body_name, ctx_object = object_name,
                ctx_object_type = obj_type, ctx_constraint_axis = constraint_axis,
                ctx_child_axis = child_axis_data, ctx_parent_axis = parent_axis_data,
                ctx_T_c_j = T_c_j\<rparr>, st')))))))"

text \<open>
  The residual of the alignment-offset algorithm: the axis of \<open>delta_R\<close>, rounded by
  \<open>round_vec\<close>, and its angle.
\<close>

definition alignment_residual ::
    "'m mathutils \<Rightarrow> (real \<Rightarrow> real) \<Rightarrow> 'm adjust_ctx \<Rightarrow> error + (vec \<times> real)" where
  "alignment_residual mu round3 ctx =
     (case get_rot_mat_from_vecs (mu_angle mu) (mu_Rotation mu)
             (ctx_constraint_axis ctx) (ctx_parent_axis ctx) of
        Inl e \<Rightarrow> Inl e
      | Inr (R_caxis_p, r_cnew_p_angle) \<Rightarrow>
     (let R_cnew_p = mu_mul mu R_caxis_p (ctx_T_c_j ctx)
      in case get_rot_mat_from_vecs (mu_angle mu) (mu_Rotation mu)
                (ctx_child_axis ctx) (ctx_parent_axis ctx) of
        Inl e \<Rightarrow> Inl e
      | Inr (R_c_p, r_c_p_angle) \<Rightarrow>
     (let R_p_cnew = mu_inverted mu R_cnew_p;
          delta_R = mu_mul mu R_p_cnew R_c_p;
          (ax, d_angle) = mu_axis_angle mu delta_R;
          d_axis = (case ax of (x, y, z) \<Rightarrow> (round3 x, round3 y, round3 z))
      in Inr (d_axis, d_angle))))"

text \<open>
  The rest of the alignment-offset algorithm: the sanity check with its warning, the sign
  of the angle, and the correction. An empty of the host has no mesh data; the first
  transform is guarded by the type of the child, this one is not, and on an empty it
  raises \<open>AttributeError\<close>.
\<close>

definition alignment_offset ::
    "'m mathutils \<Rightarrow> (real \<Rightarrow> real) \<Rightarrow> 'm adjust_ctx \<Rightarrow> 'm importer \<Rightarrow> error + 'm importer" where
  "alignment_offset mu round3 ctx st =
     (case alignment_residual mu round3 ctx of
        Inl e \<Rightarrow> Inl e
      | Inr (d_axis, d_angle) \<Rightarrow>
     (let v_diff = cross d_axis (ctx_child_axis ctx);
          st1 = (if vec_norm v_diff > 0.1 \<and> \<bar>d_angle\<bar> > 0.1
                 then st\<lparr>printed := printed st @ [axis_warning]\<rparr> else st);
          d_angle = (if (case d_axis of (x, y, z) \<Rightarrow> x < 0 \<or> y < 0 \<or> z < 0)
                     then - d_angle else d_angle)
      in if \<bar>d_angle\<bar> > 0.1 then
           (let R_ao = mu_Rotation mu d_angle (ctx_constraint_axis ctx)
            in if ctx_object_type ctx = ''EMPTY'' then Inl (AttributeError ''transform'')
               else Inr (st1\<lparr>transformed := transformed st1 @ [(ctx_object ctx, R_ao)],
                            body_T_j_c := (body_T_j_c st1)
                               (ctx_child ctx \<mapsto> mu_mul mu R_ao (ctx_T_c_j ctx))\<rparr>))
         else Inr st1))"

definition adjust_joint ::
    "'m mathutils \<Rightarrow> (real \<Rightarrow> real) \<Rightarrow> string \<Rightarrow> adf_joint \<Rightarrow> 'm importer \<Rightarrow> error + 'm importer" where
  "adjust_joint mu round3 joint_name joint_data st =
     (case primary_adjust mu joint_name joint_data st of
        Inl e \<Rightarrow> Inl e
      | Inr (ctx, st') \<Rightarrow> alignment_offset mu round3 ctx st')"

text \<open>
  \<open>adjust_body_pivots_and_axis\<close>: the loop over the joint names. At a detached joint the
  function prints a line and returns.
\<close>

fun adjust_loop ::
    "'m mathutils \<Rightarrow> (real \<Rightarrow> real) \<Rightarrow> string list \<Rightarrow> 'm importer \<Rightarrow> error + 'm importer" where
  "adjust_loop mu round3 [] st = Inr st"
| "adjust_loop mu round3 (joint_name # rest) st =
     (case ambf_data st joint_name of
        None \<Rightarrow> Inl (KeyError joint_name)
      | Some joint_data \<Rightarrow>
          (if child_pivot joint_data \<noteq> None then
             (if is_detached_joint joint_data
              then Inr (st\<lparr>printed := printed st @ [detached_info joint_name]\<rparr>)
              else (case adjust_joint mu round3 joint_name joint_data st of
                      Inl e \<Rightarrow> Inl e
                    | Inr st' \<Rightarrow> adjust_loop mu round3 rest st'))
           else adjust_loop mu round3 rest st))"

definition adjust_body_pivots_and_axis ::
    "'m mathutils \<Rightarrow> (real \<Rightarrow> real) \<Rightarrow> 'm importer \<Rightarrow> error + 'm importer" where
  "adjust_body_pivots_and_axis mu round3 st = adjust_loop mu round3 (joint_names st) st"


text \<open>The angle of the correction: the residual angle, negated when a component of the
  rounded residual axis is negative.\<close>

definition signed_angle :: "vec \<Rightarrow> real \<Rightarrow> real" where
  "signed_angle d_axis d_angle =
     (if (case d_axis of (x, y, z) \<Rightarrow> x < 0 \<or> y < 0 \<or> z < 0) then - d_angle else d_angle)"

text \<open>
  An instance of the \<open>mathutils\<close> operations for the examples: a matrix is a rotation and
  a translation, with the operations of rigid transformations. The axis and angle of a
  rotation are read off its trace and its antisymmetric part; for a rotation by zero
  \<open>to_axis_angle\<close> returns the x axis.
\<close>

type_synonym rigid = "mat3 \<times> vec"

fun mat_transpose :: "mat3 \<Rightarrow> mat3" where
  "mat_transpose m = (mat_col m 0, mat_col m 1, mat_col m 2)"

fun mat_vec :: "mat3 \<Rightarrow> vec \<Rightarrow> vec" where
  "mat_vec (r1, r2, r3) v = (dot r1 v, dot r2 v, dot r3 v)"

fun rigid_inverted :: "rigid \<Rightarrow> rigid" where
  "rigid_inverted (r, t) = (mat_transpose r, vec_scale (mat_vec (mat_transpose r) t) (- 1))"

fun rigid_mul :: "rigid \<Rightarrow> rigid \<Rightarrow> rigid" where
  "rigid_mul (r1, t1) (r2, t2) = (mat_mul r1 r2, vec_add (mat_vec r1 t2) t1)"

fun rigid_axis_angle :: "rigid \<Rightarrow> vec \<times> real" where
  "rigid_axis_angle (((a, b, c), (d, e, f), (g, h, i)), t) =
     (let w = (h - f, c - g, d - b);
          ang = arccos (max (- 1) (min 1 ((a + e + i - 1) / 2)))
      in if vec_norm w = 0 then ((1, 0, 0), ang) else (vec_scale w (1 / vec_norm w), ang))"

definition rigid_mathutils :: "rigid mathutils" where
  "rigid_mathutils =
     \<lparr>mu_angle = vec_angle,
      mu_Rotation = (\<lambda>a ax. (axis_angle_matrix a ax, (0, 0, 0))),
      mu_translate = (\<lambda>m v. (fst m, v)),
      mu_inverted = rigid_inverted,
      mu_mul = rigid_mul,
      mu_axis_angle = rigid_axis_angle\<rparr>"

text \<open>
  Example documents. In \<open>aligned_doc\<close> the joint \<open>JOINT a-b\<close> is a revolute joint whose
  parent and child axis are the z axis. In \<open>detached_first_doc\<close> the detached joint
  \<open>JOINT loop\<close> comes first and the revolute joint \<open>JOINT a-b\<close>, with child axis x,
  second.
\<close>

definition revolute_z :: adf_joint where
  "revolute_z =
     \<lparr>jparent = Some ''BODY a'', jchild = Some ''BODY b'', jkind = Some ''revolute'',
      parent_pivot = Some (1, 0, 0), parent_axis = Some (0, 0, 1),
      child_pivot = Some (0, 0, 0), child_axis = Some (0, 0, 1),
      redundant = None, detached = None\<rparr>"

definition revolute_x :: adf_joint where
  "revolute_x = revolute_z\<lparr>child_pivot := Some (0, 1, 0), child_axis := Some (1, 0, 0)\<rparr>"

definition detached_loop :: adf_joint where
  "detached_loop = revolute_z\<lparr>jchild := Some ''BODY c'', detached := Some (YBool True)\<rparr>"


definition detached_first_doc :: "rigid importer" where
  "detached_first_doc =
     \<lparr>joint_names = [''JOINT loop'', ''JOINT a-b''],
      ambf_data = [''JOINT loop'' \<mapsto> detached_loop, ''JOINT a-b'' \<mapsto> revolute_x],
      body_T_j_c = [''BODY a'' \<mapsto> (Identity3, (0, 0, 0)), ''BODY b'' \<mapsto> (Identity3, (0, 0, 0)),
                    ''BODY c'' \<mapsto> (Identity3, (0, 0, 0))],
      remapped_names = [''BODY a'' \<mapsto> ''a'', ''BODY b'' \<mapsto> ''b'', ''BODY c'' \<mapsto> ''c''],
      object_types = [''a'' \<mapsto> ''MESH'', ''b'' \<mapsto> ''MESH'', ''c'' \<mapsto> ''MESH''],
      transformed = [],
      printed = []\<rparr>"

text \<open>The same document with the two joints listed in the other order.\<close>

definition swapped_doc :: "rigid importer" where
  "swapped_doc = detached_first_doc\<lparr>joint_names := [''JOINT a-b'', ''JOINT loop'']\<rparr>"


section \<open>Properties of the axis classification\<close>

lemma sd: "sum_diff (x,y,z) = [\<bar>x - y\<bar> + \<bar>x - z\<bar>, \<bar>y - x\<bar> + \<bar>y - z\<bar>, \<bar>z - x\<bar> + \<bar>z - y\<bar>]"
  by (simp add: sum_diff_def)

lemma index_max3:
  "index_of [a, b, c] (list_max [a, b, c]) = (if b \<le> a \<and> c \<le> a then 0 else if c \<le> b then 1 else 2)"
  for a :: "'a::linorder"
  by (auto simp: max_def)

lemma index_min3:
  "index_of [a, b, c] (list_min [a, b, c]) = (if a \<le> b \<and> a \<le> c then 0 else if b \<le> c then 1 else 2)"
  for a :: "'a::linorder"
  by (auto simp: min_def)

lemma lt3: "i < (3::nat) \<longleftrightarrow> i = 0 \<or> i = 1 \<or> i = 2"
  by auto

lemma rest3:
  "i < 3 \<Longrightarrow> j < 3 \<Longrightarrow>
   index_of ([1, 1, 1::nat][i := 0, j := 0]) (list_max ([1, 1, 1::nat][i := 0, j := 0])) = rest_idx i j"
  by (auto simp: lt3 rest_idx_def)

lemma index_max_lt3: "index_of [a, b, c] (list_max [a, b, c]) < 3" for a :: "'a::linorder"
  by (subst index_max3) simp

lemma index_min_lt3: "index_of [a, b, c] (list_min [a, b, c]) < 3" for a :: "'a::linorder"
  by (subst index_min3) simp

lemma sum_diff_shape: "\<exists>a b c. sum_diff d = [a, b, c]"
  by (simp add: sum_diff_def)

lemma major_idx: "snd (get_major_axis d) =
   (if sum_diff d ! 0 = sum_diff d ! 1 \<and> sum_diff d ! 1 = sum_diff d ! 2 then 2
    else index_of (sum_diff d) (list_max (sum_diff d)))"
  by (simp add: get_major_axis_def Let_def)

lemma minor_idx: "snd (get_minor_axis d) =
   rest_idx (index_of (sum_diff d) (list_max (sum_diff d))) (index_of (sum_diff d) (list_min (sum_diff d)))"
proof -
  obtain a b c where s: "sum_diff d = [a, b, c]"
    using sum_diff_shape by blast
  show ?thesis
    unfolding get_minor_axis_def Let_def s
    by (simp only: snd_conv rest3 index_max_lt3 index_min_lt3)
qed

lemma rest_idx_lt3: "rest_idx i j < 3"
  by (simp add: rest_idx_def)

lemma major_lt3: "snd (get_major_axis d) < 3"
proof -
  obtain a b c where s: "sum_diff d = [a, b, c]"
    using sum_diff_shape by blast
  show ?thesis
    unfolding major_idx s using index_max_lt3[of a b c] by (simp del: index_of.simps list_max.simps)
qed

lemma minor_lt3: "snd (get_minor_axis d) < 3"
  by (simp only: minor_idx rest_idx_lt3)

lemma median_idx: "snd (get_median_axis d) = rest_idx (snd (get_major_axis d)) (snd (get_minor_axis d))"
  unfolding get_median_axis_def Let_def split_beta
  by (simp only: snd_conv rest3 major_lt3 minor_lt3)


lemma classify3:
  fixes a b c :: "'a::linorder"
  defines "imax \<equiv> index_of [a, b, c] (list_max [a, b, c])"
      and "imin \<equiv> index_of [a, b, c] (list_min [a, b, c])"
  defines "maj \<equiv> (if a = b \<and> b = c then 2 else imax)"
  defines "mn \<equiv> rest_idx imax imin"
  shows "rest_idx maj mn = imin" and "maj \<noteq> mn" and "maj \<noteq> imin" and "mn \<noteq> imin"
    and "[a, b, c] ! maj = list_max [a, b, c]"
  unfolding maj_def mn_def imax_def imin_def index_max3 index_min3 rest_idx_def
  by (auto simp: max_def)

lemma axes_of_scores:
  assumes s: "sum_diff d = [a, b, c]"
  shows "snd (get_major_axis d) = (if a = b \<and> b = c then 2 else index_of [a, b, c] (list_max [a, b, c]))"
    and "snd (get_minor_axis d) =
           rest_idx (index_of [a, b, c] (list_max [a, b, c])) (index_of [a, b, c] (list_min [a, b, c]))"
  unfolding major_idx minor_idx s by simp_all

lemma median_is_first_argmin:
  "snd (get_median_axis d) = index_of (sum_diff d) (list_min (sum_diff d))"
proof -
  obtain a b c where s: "sum_diff d = [a, b, c]"
    using sum_diff_shape by blast
  show ?thesis
    unfolding median_idx axes_of_scores[OF s] s by (rule classify3(1))
qed

lemma axes_distinct:
  "snd (get_major_axis d) \<noteq> snd (get_minor_axis d)"
  "snd (get_major_axis d) \<noteq> snd (get_median_axis d)"
  "snd (get_minor_axis d) \<noteq> snd (get_median_axis d)"
proof -
  obtain a b c where s: "sum_diff d = [a, b, c]"
    using sum_diff_shape by blast
  show "snd (get_major_axis d) \<noteq> snd (get_minor_axis d)"
    unfolding axes_of_scores[OF s] by (rule classify3(2))
  show "snd (get_major_axis d) \<noteq> snd (get_median_axis d)"
    unfolding median_is_first_argmin unfolding axes_of_scores[OF s] s by (rule classify3(3))
  show "snd (get_minor_axis d) \<noteq> snd (get_median_axis d)"
    unfolding median_is_first_argmin unfolding axes_of_scores[OF s] s by (rule classify3(4))
qed


lemma median_lt3: "snd (get_median_axis d) < 3"
  by (simp only: median_idx rest_idx_lt3)

lemma three_distinct: "i < 3 \<Longrightarrow> j < 3 \<Longrightarrow> k < 3 \<Longrightarrow> i \<noteq> j \<Longrightarrow> i \<noteq> k \<Longrightarrow> j \<noteq> k \<Longrightarrow> {i, j, k} = {0, 1, 2::nat}"
  by (auto simp: lt3)

lemma major_equal_dims: "get_major_axis (x, x, x) = (CHR ''z'', 2)"
  by (simp add: get_major_axis_def sum_diff_def axis_def)

text \<open>
  C5. For every dimension triple the indices returned by the major-, median- and
  minor-axis functions are pairwise distinct and are together the set \<open>{0, 1, 2}\<close>;
  when the three dimensions are equal the major axis is z, index 2.
\<close>

theorem axis_indices_partition:
  "snd (get_major_axis d) \<noteq> snd (get_minor_axis d) \<and>
   snd (get_minor_axis d) \<noteq> snd (get_median_axis d) \<and>
   snd (get_major_axis d) \<noteq> snd (get_median_axis d) \<and>
   {snd (get_major_axis d), snd (get_median_axis d), snd (get_minor_axis d)} = {0, 1, 2} \<and>
   get_major_axis (x, x, x) = (CHR ''z'', 2)"
  using axes_distinct[of d] three_distinct[OF major_lt3[of d] median_lt3[of d] minor_lt3[of d]]
    major_equal_dims[of x]
  by (simp del: dim.simps)





section \<open>Properties of the exported joint parameters\<close>

lemma no_flag_iff: "first_active_limit c = None \<longleftrightarrow> (\<forall>d. \<not> use_limit c d)"
proof
  assume "first_active_limit c = None"
  then have *: "\<not> use_limit c lin_x" "\<not> use_limit c lin_y" "\<not> use_limit c lin_z"
     "\<not> use_limit c ang_x" "\<not> use_limit c ang_y" "\<not> use_limit c ang_z"
    by (auto simp: first_active_limit_def split: if_splits)
  show "\<forall>d. \<not> use_limit c d"
  proof
    fix d show "\<not> use_limit c d" using * by (cases d) auto
  qed
next
  assume "\<forall>d. \<not> use_limit c d"
  then show "first_active_limit c = None" by (simp add: first_active_limit_def)
qed

lemma assign_generic:
  assumes "ctype c = GENERIC"
  shows "assign_joint_params r c JointTemplate =
    (case first_active_limit c of None \<Rightarrow> Inl (KeyError ''type'')
     | Some d \<Rightarrow> Inr (JointTemplate\<lparr>jtype := Some (if d \<in> {lin_x, lin_y, lin_z} then ''prismatic'' else ''revolute''),
          joint_limits := Some \<lparr>low = Some (r (limit_lower c d)), high = Some (r (limit_upper c d))\<rparr>\<rparr>))"
  using assms
  by (simp add: assign_joint_params_def first_active_limit_def limited_def JointTemplate_def)

lemma assign_generic_spring:
  assumes "ctype c = GENERIC_SPRING"
  shows "assign_joint_params r c JointTemplate =
    (case first_active_limit c of None \<Rightarrow> Inl (KeyError ''type'')
     | Some d \<Rightarrow> Inr ((if use_spring c d then JointTemplate\<lparr>damping := Some (spring_damping c d), stiffness := Some (spring_stiffness c d)\<rparr> else JointTemplate)
         \<lparr>jtype := Some (if d \<in> {lin_x, lin_y, lin_z} then ''linear spring'' else ''torsion spring''),
          joint_limits := Some \<lparr>low = Some (r (limit_lower c d)), high = Some (r (limit_upper c d))\<rparr>\<rparr>))"
  using assms
  by (simp add: assign_joint_params_def first_active_limit_def spring_def JointTemplate_def)


lemma assign_hinge:
  assumes "ctype c = HINGE"
  shows "assign_joint_params r c JointTemplate =
    (if use_limit c ang_z
     then Inr (JointTemplate\<lparr>jtype := Some ''revolute'',
            joint_limits := Some \<lparr>low = Some (r (limit_lower c ang_z)), high = Some (r (limit_upper c ang_z))\<rparr>\<rparr>)
     else Inr (JointTemplate\<lparr>jtype := Some ''continuous'',
            joint_limits := Some \<lparr>low = None, high = None\<rparr>\<rparr>))"
  using assms
  by (simp add: assign_joint_params_def limited_def JointTemplate_def)

lemma assign_slider:
  assumes "ctype c = SLIDER"
  shows "assign_joint_params r c JointTemplate =
     Inr (JointTemplate\<lparr>jtype := Some ''prismatic'',
            joint_limits := Some \<lparr>low = Some (r (limit_lower c lin_x)), high = Some (r (limit_upper c lin_x))\<rparr>\<rparr>)"
  using assms
  by (simp add: assign_joint_params_def limited_def JointTemplate_def)

lemma assign_point:
  assumes "ctype c = POINT"
  shows "assign_joint_params r c JointTemplate = Inr (JointTemplate\<lparr>jtype := Some ''p2p'', joint_limits := None\<rparr>)"
  using assms
  by (simp add: assign_joint_params_def JointTemplate_def)

lemma assign_fixed:
  assumes "ctype c = FIXED"
  shows "assign_joint_params r c JointTemplate = Inr (JointTemplate\<lparr>jtype := Some ''fixed'', joint_limits := None\<rparr>)"
  using assms
  by (simp add: assign_joint_params_def JointTemplate_def)

lemma assign_other:
  assumes "ctype c = PISTON \<or> ctype c = MOTOR"
  shows "assign_joint_params r c JointTemplate = Inl (KeyError ''type'')"
  using assms
  by (auto simp add: assign_joint_params_def JointTemplate_def)

lemma axis_generic_spring:
  assumes "ctype c = GENERIC_SPRING"
  shows "get_joint_axis c = Inl (UnboundLocalError ''ax_idx'') \<longleftrightarrow> first_active_limit c = None"
  using assms
  by (simp add: get_joint_axis_def first_active_limit_def)

lemma axis_ok:
  assumes "ctype c \<in> {FIXED, HINGE, SLIDER, POINT, GENERIC}"
  shows "\<exists>ax. get_joint_axis c = Inr ax"
  using assms
  by (auto simp add: get_joint_axis_def)

lemma axis_generic_spring_ok:
  assumes "ctype c = GENERIC_SPRING" "first_active_limit c \<noteq> None"
  shows "\<exists>ax. get_joint_axis c = Inr ax"
  using assms
  by (auto simp add: get_joint_axis_def first_active_limit_def split: if_splits)

lemma limit_dof_types:
  "ctype c = GENERIC \<Longrightarrow> limit_dof c = first_active_limit c"
  "ctype c = GENERIC_SPRING \<Longrightarrow> limit_dof c = first_active_limit c"
  "ctype c = SLIDER \<Longrightarrow> limit_dof c = Some lin_x"
  "ctype c = HINGE \<Longrightarrow> limit_dof c = (if use_limit c ang_z then Some ang_z else None)"
  by (simp_all add: limit_dof_def)

text \<open>
  C8. In the joint record that \<open>assign_joint_params\<close> makes from a new template, the
  joint limits are absent for the types fixed and p2p; for the type continuous the type is
  kept and the joint limits hold neither bound; for every other type they hold the lower
  and the upper limit of the constraint's degree of freedom, rounded to 3 decimals.
\<close>

theorem exported_joint_limits:
  assumes "assign_joint_params r c JointTemplate = Inr jd"
  shows "jtype jd \<noteq> None \<and>
         (jtype jd = Some ''fixed'' \<or> jtype jd = Some ''p2p'' \<longrightarrow> joint_limits jd = None) \<and>
         (jtype jd = Some ''continuous'' \<longrightarrow> joint_limits jd = Some \<lparr>low = None, high = None\<rparr>) \<and>
         (jtype jd \<noteq> Some ''fixed'' \<and> jtype jd \<noteq> Some ''p2p'' \<and> jtype jd \<noteq> Some ''continuous'' \<longrightarrow>
            (\<exists>d. limit_dof c = Some d \<and>
                 joint_limits jd = Some \<lparr>low = Some (r (limit_lower c d)),
                                        high = Some (r (limit_upper c d))\<rparr>))"
proof (cases "ctype c")
  case FIXED
  with assms show ?thesis by (auto simp: assign_fixed)
next
  case HINGE
  with assms show ?thesis by (auto simp: assign_hinge limit_dof_types split: if_splits)
next
  case SLIDER
  with assms show ?thesis by (auto simp: assign_slider limit_dof_types)
next
  case POINT
  with assms show ?thesis by (auto simp: assign_point)
next
  case GENERIC
  with assms show ?thesis
    by (cases "first_active_limit c") (auto simp: assign_generic limit_dof_types split: if_splits)
next
  case GENERIC_SPRING
  with assms show ?thesis
    by (cases "first_active_limit c") (auto simp: assign_generic_spring limit_dof_types split: if_splits)
next
  case PISTON
  with assms show ?thesis by (simp add: assign_other)
next
  case MOTOR
  with assms show ?thesis by (simp add: assign_other)
qed

lemma round_to_3_examples: "round_to_3 (- (3 / 2)) = - (3 / 2)" "round_to_3 (3 / 2) = 3 / 2"
  by (simp_all add: round_to_3_def)

theorem exported_joint_limits_witness:
  "assign_joint_params round_to_3 limited_hinge JointTemplate =
     Inr (JointTemplate\<lparr>jtype := Some ''revolute'',
            joint_limits := Some \<lparr>low = Some (- 1.5), high = Some 1.5\<rparr>\<rparr>) \<and>
   limit_dof limited_hinge = Some ang_z"
proof -
  have h: "assign_joint_params round_to_3 limited_hinge JointTemplate =
     Inr (JointTemplate\<lparr>jtype := Some ''revolute'',
            joint_limits := Some \<lparr>low = Some (- 1.5), high = Some 1.5\<rparr>\<rparr>)"
    by (simp add: assign_hinge limited_hinge_def round_to_3_examples)
  from exported_joint_limits[OF h] show ?thesis
    using h by (simp add: limited_hinge_def limit_dof_def)
qed

lemma some_flag_iff: "first_active_limit c \<noteq> None \<longleftrightarrow> (\<exists>d. use_limit c d)"
  using no_flag_iff[of c] by auto

lemma generate_fails_iff:
  "(\<exists>e. generate_joint_params r c = Inl e) \<longleftrightarrow>
     (\<exists>e. get_joint_axis c = Inl e) \<or> (\<exists>e. assign_joint_params r c JointTemplate = Inl e)"
  by (auto simp: generate_joint_params_def split: sum.splits)

text \<open>
  C10. Exporting a generic constraint with no limit flag set fails: no branch sets the
  type of the joint record, and reading it raises \<open>KeyError\<close>. For a generic spring with
  no limit flag set \<open>get_joint_axis\<close> reads \<open>ax_idx\<close> unassigned. Among the constraint
  kinds that are exported, the export fails exactly for a generic constraint or generic
  spring none of whose limit flags is set.
\<close>

theorem unlimited_generic_export_fails:
  "(ctype c = GENERIC \<longrightarrow>
      (assign_joint_params r c JointTemplate = Inl (KeyError ''type'') \<longleftrightarrow> (\<forall>d. \<not> use_limit c d)) \<and>
      ((\<exists>jd. assign_joint_params r c JointTemplate = Inr jd) \<longleftrightarrow> (\<exists>d. use_limit c d))) \<and>
   (ctype c = GENERIC_SPRING \<longrightarrow>
      (get_joint_axis c = Inl (UnboundLocalError ''ax_idx'') \<longleftrightarrow> (\<forall>d. \<not> use_limit c d)) \<and>
      ((\<exists>ax. get_joint_axis c = Inr ax) \<longleftrightarrow> (\<exists>d. use_limit c d))) \<and>
   (ctype c \<in> {FIXED, HINGE, SLIDER, POINT, GENERIC, GENERIC_SPRING} \<longrightarrow>
      ((\<exists>e. generate_joint_params r c = Inl e) \<longleftrightarrow>
       (ctype c = GENERIC \<or> ctype c = GENERIC_SPRING) \<and> (\<forall>d. \<not> use_limit c d)))"
proof (intro conjI impI)
  assume g: "ctype c = GENERIC"
  show "assign_joint_params r c JointTemplate = Inl (KeyError ''type'') \<longleftrightarrow> (\<forall>d. \<not> use_limit c d)"
    unfolding no_flag_iff[symmetric] assign_generic[OF g]
    by (cases "first_active_limit c") simp_all
  show "(\<exists>jd. assign_joint_params r c JointTemplate = Inr jd) \<longleftrightarrow> (\<exists>d. use_limit c d)"
    unfolding some_flag_iff[symmetric] assign_generic[OF g]
    by (cases "first_active_limit c") simp_all
next
  assume g: "ctype c = GENERIC_SPRING"
  show "get_joint_axis c = Inl (UnboundLocalError ''ax_idx'') \<longleftrightarrow> (\<forall>d. \<not> use_limit c d)"
    unfolding no_flag_iff[symmetric] by (rule axis_generic_spring[OF g])
  show "(\<exists>ax. get_joint_axis c = Inr ax) \<longleftrightarrow> (\<exists>d. use_limit c d)"
    unfolding some_flag_iff[symmetric]
    using axis_generic_spring[OF g] axis_generic_spring_ok[OF g] by (cases "first_active_limit c") auto
next
  assume t: "ctype c \<in> {FIXED, HINGE, SLIDER, POINT, GENERIC, GENERIC_SPRING}"
  show "(\<exists>e. generate_joint_params r c = Inl e) \<longleftrightarrow>
       (ctype c = GENERIC \<or> ctype c = GENERIC_SPRING) \<and> (\<forall>d. \<not> use_limit c d)"
  proof (cases "ctype c")
    case FIXED
    then show ?thesis using axis_ok[of c] by (auto simp: generate_fails_iff assign_fixed)
  next
    case HINGE
    then show ?thesis using axis_ok[of c] by (auto simp: generate_fails_iff assign_hinge)
  next
    case SLIDER
    then show ?thesis using axis_ok[of c] by (auto simp: generate_fails_iff assign_slider)
  next
    case POINT
    then show ?thesis using axis_ok[of c] by (auto simp: generate_fails_iff assign_point)
  next
    case GENERIC
    then show ?thesis using axis_ok[of c]
      unfolding no_flag_iff[symmetric] generate_fails_iff assign_generic[OF GENERIC]
      by (cases "first_active_limit c") auto
  next
    case GENERIC_SPRING
    then show ?thesis using axis_generic_spring[OF GENERIC_SPRING] axis_generic_spring_ok[OF GENERIC_SPRING]
      unfolding no_flag_iff[symmetric] generate_fails_iff assign_generic_spring[OF GENERIC_SPRING]
      by (cases "first_active_limit c") auto
  next
    case PISTON
    with t show ?thesis by simp
  next
    case MOTOR
    with t show ?thesis by simp
  qed
qed

theorem unlimited_generic_export_fails_witness:
  "ctype free_generic = GENERIC \<and> (\<forall>d. \<not> use_limit free_generic d) \<and>
   assign_joint_params round_to_3 free_generic JointTemplate = Inl (KeyError ''type'') \<and>
   (\<exists>e. generate_joint_params round_to_3 free_generic = Inl e) \<and>
   ctype free_generic_spring = GENERIC_SPRING \<and>
   get_joint_axis free_generic_spring = Inl (UnboundLocalError ''ax_idx'')"
  using unlimited_generic_export_fails[of free_generic round_to_3]
    unlimited_generic_export_fails[of free_generic_spring round_to_3]
  by (simp add: free_generic_def free_generic_spring_def)

section \<open>Properties of the collision-group import\<close>

lemma loop_length: "length (fst (collision_groups_loop gs (flags, out))) = length flags"
  by (induction gs arbitrary: flags out) auto

lemma loop_flags:
  assumes "i < length flags" "length flags = 20"
  shows "fst (collision_groups_loop gs (flags, out)) ! i \<longleftrightarrow> flags ! i \<or> int i \<in> set gs"
  using assms
proof (induction gs arbitrary: flags out)
  case Nil
  then show ?case by simp
next
  case (Cons g gs)
  show ?case
  proof (cases "0 \<le> g \<and> g < 20")
    case True
    then have "nat g < length flags" using Cons.prems by arith
    moreover have "i = nat g \<longleftrightarrow> int i = g" using True by auto
    ultimately show ?thesis
      using True Cons.IH[of "flags[nat g := True]" out] Cons.prems
      by (auto simp: nth_list_update)
  next
    case False
    then have "int i \<noteq> g" using Cons.prems by auto
    then show ?thesis
      using False Cons.IH[of flags "out @ [group_warning]"] Cons.prems by auto
  qed
qed

lemma loop_out:
  "snd (collision_groups_loop gs (flags, out)) =
     out @ replicate (length (filter (\<lambda>g. \<not> (0 \<le> g \<and> g < 20)) gs)) group_warning"
  by (induction gs arbitrary: flags out) (auto simp: replicate_append_same)

lemma load_groups_flags:
  assumes "length flags = 20" "i < 20"
  shows "fst (load_collision_groups gs (flags, out)) ! i \<longleftrightarrow> (i \<noteq> 0 \<and> flags ! i) \<or> int i \<in> set gs"
  using assms loop_flags[of i "flags[0 := False]" gs out]
  by (auto simp: load_collision_groups_def nth_list_update)


lemma blender_groups:
  assumes "object_type obj = ''MESH''"
  shows "load_blender_rigid_body (Some gs) (obj, out) =
           (obj\<lparr>collision_groups := fst (load_collision_groups gs (collision_groups obj, out))\<rparr>,
            snd (load_collision_groups gs (collision_groups obj, out)))"
  using assms by (simp add: load_blender_rigid_body_def split_beta)

lemma ambf_groups:
  assumes "object_type obj = ''MESH''"
  shows "load_ambf_rigid_body (Some gs) (obj, out) =
           (obj\<lparr>ambf_rigid_body_collision_groups :=
                   fst (load_collision_groups gs (ambf_rigid_body_collision_groups obj, out))\<rparr>,
            snd (load_collision_groups gs (ambf_rigid_body_collision_groups obj, out)))"
  using assms by (simp add: load_ambf_rigid_body_def split_beta)

lemma load_groups_out:
  "snd (load_collision_groups gs (flags, out)) =
     out @ replicate (length (filter (\<lambda>g. \<not> (0 \<le> g \<and> g < 20)) gs)) group_warning"
  by (simp add: load_collision_groups_def loop_out)

lemma load_groups_length:
  "length (fst (load_collision_groups gs (flags, out))) = length flags"
  by (simp add: load_collision_groups_def loop_length)

text \<open>
  C9. For a mesh object whose flags above group 0 are unset, as they are when a body is
  loaded, importing a collision-groups list in legacy or in native mode sets exactly the
  listed indices that lie in \<open>[0, 20)\<close>. An index outside \<open>[0, 20)\<close> adds one warning
  line and leaves the flags as they are; the loop goes on with the rest of the list, and
  the loader returns.
\<close>

theorem collision_groups_import:
  assumes "object_type obj = ''MESH''"
    and "length (collision_groups obj) = 20"
    and "\<forall>i<20. 0 < i \<longrightarrow> \<not> collision_groups obj ! i"
    and "length (ambf_rigid_body_collision_groups obj) = 20"
    and "\<forall>i<20. 0 < i \<longrightarrow> \<not> ambf_rigid_body_collision_groups obj ! i"
  shows "(\<forall>i<20. collision_groups (fst (load_blender_rigid_body (Some gs) (obj, out))) ! i
                   \<longleftrightarrow> int i \<in> set gs) \<and>
         length (collision_groups (fst (load_blender_rigid_body (Some gs) (obj, out)))) = 20 \<and>
         snd (load_blender_rigid_body (Some gs) (obj, out)) =
           out @ replicate (length (filter (\<lambda>g. \<not> (0 \<le> g \<and> g < 20)) gs)) group_warning \<and>
         (\<forall>i<20. ambf_rigid_body_collision_groups (fst (load_ambf_rigid_body (Some gs) (obj, out))) ! i
                   \<longleftrightarrow> int i \<in> set gs) \<and>
         length (ambf_rigid_body_collision_groups (fst (load_ambf_rigid_body (Some gs) (obj, out)))) = 20 \<and>
         snd (load_ambf_rigid_body (Some gs) (obj, out)) =
           out @ replicate (length (filter (\<lambda>g. \<not> (0 \<le> g \<and> g < 20)) gs)) group_warning \<and>
         (\<forall>g flags. \<not> (0 \<le> g \<and> g < 20) \<longrightarrow>
            collision_groups_loop (g # gs) (flags, out) =
            collision_groups_loop gs (flags, out @ [group_warning]))"
proof (intro conjI allI impI)
  fix i :: nat assume i: "i < 20"
  show "collision_groups (fst (load_blender_rigid_body (Some gs) (obj, out))) ! i \<longleftrightarrow> int i \<in> set gs"
    using assms(2,3) i load_groups_flags[of "collision_groups obj" i gs out]
    by (cases "i = 0") (auto simp: blender_groups[OF assms(1)])
  show "ambf_rigid_body_collision_groups (fst (load_ambf_rigid_body (Some gs) (obj, out))) ! i \<longleftrightarrow> int i \<in> set gs"
    using assms(4,5) i load_groups_flags[of "ambf_rigid_body_collision_groups obj" i gs out]
    by (cases "i = 0") (auto simp: ambf_groups[OF assms(1)])
next
  show "length (collision_groups (fst (load_blender_rigid_body (Some gs) (obj, out)))) = 20"
    using assms(2) by (simp add: blender_groups[OF assms(1)] load_groups_length)
  show "length (ambf_rigid_body_collision_groups (fst (load_ambf_rigid_body (Some gs) (obj, out)))) = 20"
    using assms(4) by (simp add: ambf_groups[OF assms(1)] load_groups_length)
  show "snd (load_blender_rigid_body (Some gs) (obj, out)) =
           out @ replicate (length (filter (\<lambda>g. \<not> (0 \<le> g \<and> g < 20)) gs)) group_warning"
    by (simp add: blender_groups[OF assms(1)] load_groups_out)
  show "snd (load_ambf_rigid_body (Some gs) (obj, out)) =
           out @ replicate (length (filter (\<lambda>g. \<not> (0 \<le> g \<and> g < 20)) gs)) group_warning"
    by (simp add: ambf_groups[OF assms(1)] load_groups_out)
next
  fix g :: int and flags :: "bool list"
  assume "\<not> (0 \<le> g \<and> g < 20)"
  then show "collision_groups_loop (g # gs) (flags, out) =
            collision_groups_loop gs (flags, out @ [group_warning])"
    by auto
qed

lemma new_mesh_object_flags:
  "object_type new_mesh_object = ''MESH''"
  "length (collision_groups new_mesh_object) = 20"
  "\<forall>i<20. 0 < i \<longrightarrow> \<not> collision_groups new_mesh_object ! i"
  "length (ambf_rigid_body_collision_groups new_mesh_object) = 20"
  "\<forall>i<20. 0 < i \<longrightarrow> \<not> ambf_rigid_body_collision_groups new_mesh_object ! i"
  by (auto simp: new_mesh_object_def nth_Cons')

theorem collision_groups_import_witness:
  "collision_groups (fst (load_blender_rigid_body (Some [1, 25, - 3, 4]) (new_mesh_object, []))) ! 1 \<and>
   collision_groups (fst (load_blender_rigid_body (Some [1, 25, - 3, 4]) (new_mesh_object, []))) ! 4 \<and>
   \<not> collision_groups (fst (load_blender_rigid_body (Some [1, 25, - 3, 4]) (new_mesh_object, []))) ! 0 \<and>
   \<not> collision_groups (fst (load_blender_rigid_body (Some [1, 25, - 3, 4]) (new_mesh_object, []))) ! 3 \<and>
   snd (load_blender_rigid_body (Some [1, 25, - 3, 4]) (new_mesh_object, [])) = [group_warning, group_warning] \<and>
   ambf_rigid_body_collision_groups (fst (load_ambf_rigid_body (Some [1, 25, - 3, 4]) (new_mesh_object, []))) ! 1 \<and>
   \<not> ambf_rigid_body_collision_groups (fst (load_ambf_rigid_body (Some [1, 25, - 3, 4]) (new_mesh_object, []))) ! 19 \<and>
   snd (load_ambf_rigid_body (Some [1, 25, - 3, 4]) (new_mesh_object, [])) = [group_warning, group_warning]"
  using collision_groups_import[OF new_mesh_object_flags, of "[1, 25, - 3, 4]" "[]"]
  by (auto simp: numeral_2_eq_2)

section \<open>Properties of the hierarchical traversal\<close>

lemma children_props: "c \<in> set (children sc b) \<longleftrightarrow> c \<in> set (objects sc) \<and> parent sc c = Some b"
  by (auto simp: children_def)

lemma pass_inv_add:
  assumes inv: "pass_inv sc (hl, added)"
    and flag: "fmlookup added body = Some False"
    and par: "\<forall>p. parent sc body = Some p \<longrightarrow> p \<in> set hl"
  shows "pass_inv sc (hl @ [body], fmupd body True added)"
proof -
  have dom: "fmdom' added = set (objects sc)"
    and flags: "\<And>b. fmlookup added b = Some True \<longleftrightarrow> b \<in> set hl"
    and dist: "distinct hl"
    and ord: "\<And>i p. i < length hl \<Longrightarrow> parent sc (hl ! i) = Some p \<Longrightarrow> \<exists>j<i. hl ! j = p"
    using inv by (auto simp: pass_inv_def)
  have notin: "body \<notin> set hl" using flags[of body] flag by auto
  have "body \<in> fmdom' added" using flag by (rule fmdom'I)
  then have d: "fmdom' (fmupd body True added) = set (objects sc)" using dom by auto
  have f: "\<And>b. fmlookup (fmupd body True added) b = Some True \<longleftrightarrow> b \<in> set (hl @ [body])"
    using flags by auto
  have o: "\<exists>j<i. (hl @ [body]) ! j = p"
    if "i < length (hl @ [body])" "parent sc ((hl @ [body]) ! i) = Some p" for i p
  proof (cases "i < length hl")
    case True
    with that ord[of i p] obtain j where "j < i" "hl ! j = p" by (auto simp: nth_append)
    with True show ?thesis by (auto simp: nth_append intro!: exI[of _ j])
  next
    case False
    with that have i: "i = length hl" by simp
    with that have "parent sc body = Some p" by simp
    with par have "p \<in> set hl" by simp
    then obtain j where "j < length hl" "hl ! j = p" by (auto simp: in_set_conv_nth)
    with i show ?thesis by (auto simp: nth_append intro!: exI[of _ j])
  qed
  show ?thesis
    unfolding pass_inv_def using d f dist notin o by auto
qed

lemma closed_except_add:
  assumes "closed_except sc B hl"
  shows "closed_except sc (insert body B) (hl @ [body])"
  using assms by (auto simp: closed_except_def)

lemma closed_except_done:
  assumes "closed_except sc (insert body B) hl" "set (children sc body) \<subseteq> set hl"
  shows "closed_except sc B hl"
  using assms by (auto simp: closed_except_def)

lemma pass_correct:
  "pass_inv sc st \<Longrightarrow> closed_except sc B (fst st) \<Longrightarrow>
   (\<forall>b'. b = Some b' \<longrightarrow> b' \<in> set (objects sc) \<and> (\<forall>p. parent sc b' = Some p \<longrightarrow> p \<in> set (fst st))) \<Longrightarrow>
   \<exists>st'. downward_tree_pass sc b st = Inr st' \<and> pass_inv sc st' \<and> closed_except sc B (fst st') \<and>
         set (fst st) \<subseteq> set (fst st') \<and> (\<forall>b'. b = Some b' \<longrightarrow> b' \<in> set (fst st'))"
  "pass_inv sc st \<Longrightarrow> closed_except sc B (fst st) \<Longrightarrow>
   (\<forall>c \<in> set cs. c \<in> set (objects sc) \<and> (\<forall>p. parent sc c = Some p \<longrightarrow> p \<in> set (fst st))) \<Longrightarrow>
   \<exists>st'. downward_children sc cs st = Inr st' \<and> pass_inv sc st' \<and> closed_except sc B (fst st') \<and>
         set (fst st) \<subseteq> set (fst st') \<and> set cs \<subseteq> set (fst st')"
proof (induction sc b st and sc cs st arbitrary: B and B rule: downward_tree_pass_downward_children.induct)
  case (1 sc st)
  then show ?case by simp
next
  case (2 sc body hl added)
  from 2(2) have inv: "pass_inv sc (hl, added)" .
  from 2(4) have body: "body \<in> set (objects sc)"
    and par: "\<forall>p. parent sc body = Some p \<longrightarrow> p \<in> set hl" by auto
  from inv body have "body \<in> fmdom' added" by (simp add: pass_inv_def)
  then obtain flag where flag: "fmlookup added body = Some flag"
    by (auto simp: fmdom'_alt_def fmlookup_dom_iff)
  show ?case
  proof (cases flag)
    case True
    with flag inv have "body \<in> set hl" by (auto simp: pass_inv_def)
    with True flag 2(2,3) show ?thesis by auto
  next
    case False
    from flag False have fl: "fmlookup added body = Some False" by simp
    let ?st1 = "(hl @ [body], fmupd body True added)"
    have inv1: "pass_inv sc ?st1" by (rule pass_inv_add[OF inv fl par])
    have cl1: "closed_except sc (insert body B) (fst ?st1)"
      using 2(3) by (simp add: closed_except_add)
    have ch: "\<forall>c \<in> set (children sc body). c \<in> set (objects sc) \<and> (\<forall>p. parent sc c = Some p \<longrightarrow> p \<in> set (fst ?st1))"
      by (auto simp: children_props)
    from 2(1)[OF fl refl inv1 cl1 ch] obtain st' where
      r: "downward_children sc (children sc body) ?st1 = Inr st'" and
      inv': "pass_inv sc st'" and cl': "closed_except sc (insert body B) (fst st')" and
      sub: "set (fst ?st1) \<subseteq> set (fst st')" and chs: "set (children sc body) \<subseteq> set (fst st')"
      by blast
    have "downward_tree_pass sc (Some body) (hl, added) = Inr st'"
      using fl r by simp
    moreover have "closed_except sc B (fst st')" by (rule closed_except_done[OF cl' chs])
    ultimately show ?thesis using inv' sub by auto
  qed
next
  case (3 sc st)
  then show ?case by simp
next
  case (4 sc child rest st)
  from 4(5) have c: "\<forall>b'. Some child = Some b' \<longrightarrow> b' \<in> set (objects sc) \<and> (\<forall>p. parent sc b' = Some p \<longrightarrow> p \<in> set (fst st))"
    by simp
  from 4(1)[OF 4(3) 4(4) c] obtain st1 where
    r1: "downward_tree_pass sc (Some child) st = Inr st1" and inv1: "pass_inv sc st1"
    and cl1: "closed_except sc B (fst st1)" and sub1: "set (fst st) \<subseteq> set (fst st1)"
    and in1: "child \<in> set (fst st1)" by auto
  have rest: "\<forall>c \<in> set rest. c \<in> set (objects sc) \<and> (\<forall>p. parent sc c = Some p \<longrightarrow> p \<in> set (fst st1))"
    using 4(5) sub1 by auto
  from 4(2)[OF r1 inv1 cl1 rest] obtain st' where
    r: "downward_children sc rest st1 = Inr st'" and inv': "pass_inv sc st'"
    and cl': "closed_except sc B (fst st')" and sub: "set (fst st1) \<subseteq> set (fst st')"
    and rs: "set rest \<subseteq> set (fst st')" by blast
  have "downward_children sc (child # rest) st = Inr st'" using r1 r by simp
  then show ?case using inv' cl' sub sub1 in1 rs by auto
qed

lemma finite_parent_rel: "finite (parent_rel sc)"
proof -
  have "parent_rel sc \<subseteq> (\<lambda>b. (the (parent sc b), b)) ` set (objects sc)"
    by (auto simp: parent_rel_def image_iff)
  then show ?thesis by (rule finite_subset) simp
qed

lemma forest_wf: "forest sc \<Longrightarrow> wf (parent_rel sc)"
  by (simp add: forest_def finite_acyclic_wf finite_parent_rel)

lemma root_of:
  assumes f: "forest sc"
  shows "obj \<in> set (objects sc) \<Longrightarrow>
         \<exists>r. get_grand_parent sc obj = Some r \<and> r \<in> set (objects sc) \<and> parent sc r = None \<and>
             (\<forall>hl. closed_except sc {} hl \<and> r \<in> set hl \<longrightarrow> obj \<in> set hl)"
proof (induction obj rule: wf_induct_rule[OF forest_wf[OF f]])
  case (1 obj)
  show ?case
  proof (cases "parent sc obj")
    case None
    then have "get_grand_parent sc obj = Some obj"
      by (subst get_grand_parent.simps) simp
    with None 1(2) show ?thesis by simp
  next
    case (Some p)
    with 1(2) have rel: "(p, obj) \<in> parent_rel sc" by (simp add: parent_rel_def)
    from f Some 1(2) have p: "p \<in> set (objects sc)" by (auto simp: forest_def)
    from 1(1)[OF rel p] obtain r where
      r: "get_grand_parent sc p = Some r" "r \<in> set (objects sc)" "parent sc r = None"
      and cl: "\<forall>hl. closed_except sc {} hl \<and> r \<in> set hl \<longrightarrow> p \<in> set hl" by blast
    have g: "get_grand_parent sc obj = Some r"
      using Some r(1) by (subst get_grand_parent.simps) simp
    have "obj \<in> set hl" if "closed_except sc {} hl" "r \<in> set hl" for hl
    proof -
      from cl that have "p \<in> set hl" by blast
      with that(1) have "set (children sc p) \<subseteq> set hl" by (auto simp: closed_except_def)
      moreover have "obj \<in> set (children sc p)" using Some 1(2) by (simp add: children_props)
      ultimately show ?thesis by blast
    qed
    with g r(2,3) show ?thesis by blast
  qed
qed

lemma populate_loop_correct:
  assumes f: "forest sc"
  shows "set os \<subseteq> set (objects sc) \<Longrightarrow> pass_inv sc st \<Longrightarrow> closed_except sc {} (fst st) \<Longrightarrow>
         \<exists>st'. populate_loop sc os st = Some (Inr st') \<and> pass_inv sc st' \<and>
               closed_except sc {} (fst st') \<and> set (fst st) \<subseteq> set (fst st') \<and>
               set os \<subseteq> set (fst st')"
proof (induction os arbitrary: st)
  case Nil
  then show ?case by simp
next
  case (Cons obj rest)
  from Cons.prems(1) have obj: "obj \<in> set (objects sc)" and rest: "set rest \<subseteq> set (objects sc)"
    by auto
  from root_of[OF f obj] obtain r where
    g: "get_grand_parent sc obj = Some r" and r: "r \<in> set (objects sc)" "parent sc r = None"
    and cl: "\<forall>hl. closed_except sc {} hl \<and> r \<in> set hl \<longrightarrow> obj \<in> set hl" by blast
  have pre: "\<forall>b'. Some r = Some b' \<longrightarrow> b' \<in> set (objects sc) \<and> (\<forall>p. parent sc b' = Some p \<longrightarrow> p \<in> set (fst st))"
    using r by simp
  from pass_correct(1)[OF Cons.prems(2) Cons.prems(3) pre] obtain st1 where
    p1: "downward_tree_pass sc (Some r) st = Inr st1" and inv1: "pass_inv sc st1"
    and cl1: "closed_except sc {} (fst st1)" and sub1: "set (fst st) \<subseteq> set (fst st1)"
    and r1: "r \<in> set (fst st1)" by auto
  from cl cl1 r1 have o1: "obj \<in> set (fst st1)" by blast
  from Cons.IH[OF rest inv1 cl1] obtain st' where
    l: "populate_loop sc rest st1 = Some (Inr st')" and inv': "pass_inv sc st'"
    and cl': "closed_except sc {} (fst st')" and sub: "set (fst st1) \<subseteq> set (fst st')"
    and rs: "set rest \<subseteq> set (fst st')" by blast
  have "populate_loop sc (obj # rest) st = Some (Inr st')"
    using g p1 l by simp
  then show ?case using inv' cl' sub sub1 o1 rs by auto
qed

lemma initial_flags:
  "fmlookup (fold (\<lambda>obj added. fmupd obj False added) xs m) b =
     (if b \<in> set xs then Some False else fmlookup m b)"
  by (induction xs arbitrary: m) auto

lemma initial_inv:
  "pass_inv sc ([], fold (\<lambda>obj added. fmupd obj False added) (objects sc) fmempty)"
  by (auto simp: pass_inv_def initial_flags fmdom'_alt_def fmlookup_dom_iff split: if_splits)

lemma ancestors_precede:
  assumes inv: "pass_inv sc st" and a: "(p, b) \<in> (parent_rel sc)\<^sup>+"
  shows "\<forall>i < length (fst st). fst st ! i = b \<longrightarrow> (\<exists>j<i. fst st ! j = p)"
  using a
proof (induction rule: trancl_induct)
  case (base y)
  then have "parent sc y = Some p" by (simp add: parent_rel_def)
  with inv show ?case by (auto simp: pass_inv_def)
next
  case (step y z)
  then have yz: "parent sc z = Some y" by (simp add: parent_rel_def)
  show ?case
  proof (intro allI impI)
    fix i assume i: "i < length (fst st)" "fst st ! i = z"
    from inv have "\<And>i p. i < length (fst st) \<Longrightarrow> parent sc (fst st ! i) = Some p \<Longrightarrow> \<exists>j<i. fst st ! j = p"
      by (simp add: pass_inv_def)
    from this[of i y] i yz obtain j where j: "j < i" "fst st ! j = y" by auto
    from j i have "j < length (fst st)" by simp
    with step.IH j(2) obtain k where "k < j" "fst st ! k = p" by blast
    with j show "\<exists>j<i. fst st ! j = p" by (auto intro!: exI[of _ k])
  qed
qed

lemma pass_inv_set: "pass_inv sc st \<Longrightarrow> set (fst st) \<subseteq> set (objects sc)"
  by (auto simp: pass_inv_def intro: fmdom'I)


lemma flags_kept:
  "downward_tree_pass sc b st = Inr st' \<Longrightarrow>
     (\<forall>x. fmlookup (snd st) x = Some True \<longrightarrow> fmlookup (snd st') x = Some True) \<and>
     (\<forall>b'. b = Some b' \<longrightarrow> fmlookup (snd st') b' = Some True)"
  "downward_children sc cs st = Inr st' \<Longrightarrow>
     (\<forall>x. fmlookup (snd st) x = Some True \<longrightarrow> fmlookup (snd st') x = Some True)"
proof (induction sc b st and sc cs st arbitrary: st' and st' rule: downward_tree_pass_downward_children.induct)
  case (1 sc st)
  then show ?case by simp
next
  case (2 sc body hl added)
  show ?case
  proof (cases "fmlookup added body")
    case None
    with 2(2) show ?thesis by simp
  next
    case (Some flag)
    show ?thesis
    proof (cases flag)
      case True
      with Some 2(2) show ?thesis by auto
    next
      case False
      with Some have fl: "fmlookup added body = Some False" by simp
      with 2(2) have r: "downward_children sc (children sc body) (hl @ [body], fmupd body True added) = Inr st'"
        by simp
      from 2(1)[OF fl refl r] show ?thesis by auto
    qed
  qed
next
  case (3 sc st)
  then show ?case by simp
next
  case (4 sc child rest st)
  from 4(3) obtain st1 where a: "downward_tree_pass sc (Some child) st = Inr st1"
    and b: "downward_children sc rest st1 = Inr st'"
    by (auto split: sum.splits)
  from 4(1)[OF a] 4(2)[OF a b] show ?case by blast
qed

lemma pass_again:
  assumes "downward_tree_pass sc (Some r) st = Inr st'"
  shows "downward_tree_pass sc (Some r) st' = Inr st'"
proof -
  from flags_kept(1)[OF assms] have "fmlookup (snd st') r = Some True" by simp
  then show ?thesis by (cases st') simp
qed

text \<open>
  C6. For every scene forest the traversal returns a list that holds every object of the
  scene exactly once and in which every ancestor of a body stands before the body. The
  list is a function of the scene, and a pass from a root that has been visited leaves
  the state as it is, however often the root is reached.
\<close>

theorem hierarchical_traversal:
  assumes "forest sc"
  shows "\<exists>hl. populate_heirarchial_tree sc = Some (Inr hl) \<and>
              distinct hl \<and> set hl = set (objects sc) \<and>
              (\<forall>i<length hl. \<forall>p. (p, hl ! i) \<in> (parent_rel sc)\<^sup>+ \<longrightarrow> (\<exists>j<i. hl ! j = p)) \<and>
              (\<forall>r st st'. downward_tree_pass sc (Some r) st = Inr st' \<longrightarrow>
                           downward_tree_pass sc (Some r) st' = Inr st')"
proof -
  let ?st0 = "([], fold (\<lambda>obj added. fmupd obj False added) (objects sc) fmempty)"
  have cl0: "closed_except sc {} (fst ?st0)" by (simp add: closed_except_def)
  from populate_loop_correct[OF assms subset_refl initial_inv cl0] obtain st' where
    l: "populate_loop sc (objects sc) ?st0 = Some (Inr st')" and inv: "pass_inv sc st'"
    and all: "set (objects sc) \<subseteq> set (fst st')" by blast
  have res: "populate_heirarchial_tree sc = Some (Inr (fst st'))"
    using l by (simp add: populate_heirarchial_tree_def)
  have d: "distinct (fst st')" using inv by (simp add: pass_inv_def)
  have s: "set (fst st') = set (objects sc)" using pass_inv_set[OF inv] all by blast
  have o: "\<forall>i<length (fst st'). \<forall>p. (p, fst st' ! i) \<in> (parent_rel sc)\<^sup>+ \<longrightarrow> (\<exists>j<i. fst st' ! j = p)"
    using ancestors_precede[OF inv] by blast
  have again: "\<forall>r st st'. downward_tree_pass sc (Some r) st = Inr st' \<longrightarrow>
                         downward_tree_pass sc (Some r) st' = Inr st'"
    by (intro allI impI) (rule pass_again)
  show ?thesis
    by (rule exI[of _ "fst st'"]) (intro conjI res d s o again)
qed

lemma forest_example: "forest example_scene"
proof -
  have "parent_rel example_scene \<subseteq> less_than"
    by (auto simp: parent_rel_def example_scene_def split: if_splits)
  then have "acyclic (parent_rel example_scene)"
    by (rule acyclic_subset[OF wf_acyclic[OF wf_less_than]])
  then show ?thesis
    by (auto simp: forest_def example_scene_def split: if_splits)
qed

lemma example_traversal: "populate_heirarchial_tree example_scene = Some (Inr [0, 1, 2, 3])"
    by (simp add: populate_heirarchial_tree_def example_scene_def get_grand_parent.simps children_def)


theorem hierarchical_traversal_witness:
  "forest example_scene \<and>
   (\<exists>hl. populate_heirarchial_tree example_scene = Some (Inr hl) \<and> hl = [0, 1, 2, 3] \<and>
         distinct hl \<and> set hl = set (objects example_scene))"
proof -
  from hierarchical_traversal[OF forest_example] obtain hl where
    h: "populate_heirarchial_tree example_scene = Some (Inr hl)" "distinct hl"
       "set hl = set (objects example_scene)"
    by (elim exE conjE)
  from h(1) example_traversal have "hl = [0, 1, 2, 3]" by simp
  with h forest_example show ?thesis by simp
qed

section \<open>Properties of the rotation between two vectors\<close>

lemma angle_zx: "vec_angle (0, 0, 1) (1, 0, 0) = Some (pi / 2)"
  by (simp add: vec_angle_def)

lemma angle_opp: "vec_angle (0, 0, 1) (0, 0, - 1) = Some pi"
  by (simp add: vec_angle_def)

lemma pi_half_bounds: "0.1 < pi / 2" "pi / 2 < 3.13"
  using pi_ge_two pi_less_4 by simp_all

lemma rot_y: "axis_angle_matrix pi (0, 1, 0) = ((- 1, 0, 0), (0, 1, 0), (0, 0, - 1))"
  by (simp add: axis_angle_matrix_def Identity3_def)

lemma rot_mx: "axis_angle_matrix pi (- 1, 0, 0) = ((1, 0, 0), (0, - 1, 0), (0, 0, - 1))"
  by (simp add: axis_angle_matrix_def Identity3_def)

lemma code_at_z: "rot_matrix_from_vecs vec_angle axis_angle_matrix (0, 0, 1) (0, 0, - 1)
   = Inr ((- 1, 0, 0), (0, 1, 0), (0, 0, - 1))"
  using pi_half_bounds
  by (simp add: rot_matrix_from_vecs_def angle_zx angle_opp rot_y Let_def)

lemma claim_at_z: "rotation_between_as_claimed vec_angle axis_angle_matrix (0, 0, 1) (0, 0, - 1)
   = ((1, 0, 0), (0, - 1, 0), (0, 0, - 1))"
  using pi_half_bounds
  by (simp add: rotation_between_as_claimed_def angle_zx rot_mx Let_def)


lemma norm_cross_sq: "(vec_norm (cross a b))\<^sup>2 = dot a a * dot b b - (dot a b)\<^sup>2"
proof -
  obtain a1 a2 a3 where a: "a = (a1, a2, a3)" by (cases a) auto
  obtain b1 b2 b3 where b: "b = (b1, b2, b3)" by (cases b) auto
  have "(vec_norm (cross a b))\<^sup>2 = (a2 * b3 - a3 * b2)\<^sup>2 + (a3 * b1 - a1 * b3)\<^sup>2 + (a1 * b2 - a2 * b1)\<^sup>2"
    unfolding a b by simp
  also have "\<dots> = dot a a * dot b b - (dot a b)\<^sup>2"
    unfolding a b by (simp add: power2_eq_square algebra_simps)
  finally show ?thesis .
qed

lemma unit_cross_nonzero:
  assumes "dot a a = 1" "dot b b = 1" "- 0.9 \<le> dot a b" "dot a b \<le> 0.9"
  shows "(vec_norm (cross a b))\<^sup>2 \<noteq> 0"
proof -
  have "\<bar>dot a b\<bar> \<le> 0.9" using assms(3,4) by simp
  then have "\<bar>dot a b\<bar>\<^sup>2 \<le> 0.9\<^sup>2" by (rule power_mono) simp
  then have "(dot a b)\<^sup>2 < 1" by (simp add: power2_eq_square)
  then show ?thesis unfolding norm_cross_sq assms(1,2) by simp
qed

text \<open>
  C3, as the code has it. For unit vectors \<open>a\<close> and \<open>b\<close>: a dot product above \<open>0.9\<close>
  gives the identity; a dot product below \<open>- 0.9\<close> gives the rotation by the angle between
  \<open>a\<close> and \<open>b\<close> about the cross product of \<open>a\<close> with the x axis when the angle between
  \<open>a\<close> and the x axis lies strictly between \<open>0.1\<close> and \<open>3.13\<close>, and with the y axis
  otherwise; every other dot product gives the Rodrigues formula on the skew matrix of
  \<open>a \<times> b\<close>. No branch raises.
\<close>

theorem rot_matrix_from_vecs_cases:
  assumes "dot a a = 1" and "dot b b = 1"
    and "angle a b = Some rot_angle" and "angle a (1, 0, 0) = Some temp_ang"
  shows "(dot a b > 0.9 \<longrightarrow> rot_matrix_from_vecs angle Rotation a b = Inr Identity3) \<and>
         (dot a b < - 0.9 \<and> 0.1 < \<bar>temp_ang\<bar> \<and> \<bar>temp_ang\<bar> < 3.13 \<longrightarrow>
            rot_matrix_from_vecs angle Rotation a b = Inr (Rotation rot_angle (cross a (1, 0, 0)))) \<and>
         (dot a b < - 0.9 \<and> \<not> (0.1 < \<bar>temp_ang\<bar> \<and> \<bar>temp_ang\<bar> < 3.13) \<longrightarrow>
            rot_matrix_from_vecs angle Rotation a b = Inr (Rotation rot_angle (cross a (0, 1, 0)))) \<and>
         (- 0.9 \<le> dot a b \<and> dot a b \<le> 0.9 \<longrightarrow>
            rot_matrix_from_vecs angle Rotation a b =
              Inr (mat_add (mat_add Identity3 (skew_mat (cross a b)))
                     (mat_scale (mat_mul (skew_mat (cross a b)) (skew_mat (cross a b)))
                        ((1 - dot a b) / (vec_norm (cross a b))\<^sup>2))))"
proof (intro conjI impI)
  assume "dot a b > 0.9"
  then show "rot_matrix_from_vecs angle Rotation a b = Inr Identity3"
    using assms(3) by (simp add: rot_matrix_from_vecs_def Let_def)
next
  assume "dot a b < - 0.9 \<and> 0.1 < \<bar>temp_ang\<bar> \<and> \<bar>temp_ang\<bar> < 3.13"
  then show "rot_matrix_from_vecs angle Rotation a b = Inr (Rotation rot_angle (cross a (1, 0, 0)))"
    using assms(3,4) by (simp add: rot_matrix_from_vecs_def Let_def)
next
  assume "dot a b < - 0.9 \<and> \<not> (0.1 < \<bar>temp_ang\<bar> \<and> \<bar>temp_ang\<bar> < 3.13)"
  then show "rot_matrix_from_vecs angle Rotation a b = Inr (Rotation rot_angle (cross a (0, 1, 0)))"
    using assms(3,4) by (auto simp add: rot_matrix_from_vecs_def Let_def)
next
  assume d: "- 0.9 \<le> dot a b \<and> dot a b \<le> 0.9"
  then have "(vec_norm (cross a b))\<^sup>2 \<noteq> 0"
    using unit_cross_nonzero[OF assms(1,2)] by simp
  then show "rot_matrix_from_vecs angle Rotation a b =
              Inr (mat_add (mat_add Identity3 (skew_mat (cross a b)))
                     (mat_scale (mat_mul (skew_mat (cross a b)) (skew_mat (cross a b)))
                        ((1 - dot a b) / (vec_norm (cross a b))\<^sup>2)))"
    using assms(3) d by (simp add: rot_matrix_from_vecs_def Let_def)
qed

theorem rot_matrix_from_vecs_cases_witness:
  "dot (0, 0, 1) (0, 0, - 1) < - 0.9 \<and> 0.1 < \<bar>pi / 2\<bar> \<and> \<bar>pi / 2\<bar> < 3.13 \<and>
   rot_matrix_from_vecs vec_angle axis_angle_matrix (0, 0, 1) (0, 0, - 1) =
     Inr (axis_angle_matrix pi (cross (0, 0, 1) (1, 0, 0)))"
  using rot_matrix_from_vecs_cases[of "(0, 0, 1)" "(0, 0, - 1)" vec_angle pi "pi / 2" axis_angle_matrix]
    pi_half_bounds
  by (simp add: angle_zx angle_opp)

lemma angle_tilted: "vec_angle (0, 0, 1) (7 / 25, 0, - (24 / 25)) = Some (arccos (- (24 / 25)))"
proof -
  have "(7 / 25 :: real)\<^sup>2 + (24 / 25)\<^sup>2 = 1" by (simp add: power2_eq_square)
  then show ?thesis by (simp add: vec_angle_def)
qed

lemma code_at_tilted:
  "rot_matrix_from_vecs vec_angle axis_angle_matrix (0, 0, 1) (7 / 25, 0, - (24 / 25)) =
     Inr (axis_angle_matrix (arccos (- (24 / 25))) (0, 1, 0))"
  using pi_half_bounds
  by (simp add: rot_matrix_from_vecs_def angle_zx angle_tilted Let_def)

lemma tilted_not_pi:
  "axis_angle_matrix (arccos (- (24 / 25))) (0, 1, 0) \<noteq> axis_angle_matrix pi (0, 1, 0)"
  by (simp add: axis_angle_matrix_def Identity3_def)

text \<open>
  C3, as the claim states it, fails twice. For \<open>a = (0, 0, 1)\<close> and \<open>b = (0, 0, - 1)\<close> the
  angle between \<open>a\<close> and the x axis is \<open>\<pi> / 2\<close>, inside \<open>(0.1, 3.13)\<close>, and the code
  rotates about \<open>a \<times> x\<close>, not about \<open>a \<times> y\<close>. For \<open>b = (0.28, 0, - 0.96)\<close> the dot
  product is \<open>- 0.96\<close> and the code rotates by the angle between \<open>a\<close> and \<open>b\<close>, which is
  not \<open>\<pi>\<close>.
\<close>

theorem rotation_between_counterexample:
  "vec_angle (0, 0, 1) (1, 0, 0) = Some (pi / 2) \<and> 0.1 < pi / 2 \<and> pi / 2 < 3.13 \<and>
   rot_matrix_from_vecs vec_angle axis_angle_matrix (0, 0, 1) (0, 0, - 1) =
     Inr ((- 1, 0, 0), (0, 1, 0), (0, 0, - 1)) \<and>
   rotation_between_as_claimed vec_angle axis_angle_matrix (0, 0, 1) (0, 0, - 1) =
     ((1, 0, 0), (0, - 1, 0), (0, 0, - 1)) \<and>
   rot_matrix_from_vecs vec_angle axis_angle_matrix (0, 0, 1) (0, 0, - 1) \<noteq>
     Inr (rotation_between_as_claimed vec_angle axis_angle_matrix (0, 0, 1) (0, 0, - 1)) \<and>
   rot_matrix_from_vecs vec_angle axis_angle_matrix (0, 0, 1) (7 / 25, 0, - (24 / 25)) =
     Inr (axis_angle_matrix (arccos (- (24 / 25))) (cross (0, 0, 1) (1, 0, 0))) \<and>
   axis_angle_matrix (arccos (- (24 / 25))) (cross (0, 0, 1) (1, 0, 0)) \<noteq>
     axis_angle_matrix pi (cross (0, 0, 1) (1, 0, 0))"
  using pi_half_bounds tilted_not_pi
  by (simp add: angle_zx code_at_z claim_at_z code_at_tilted)

section \<open>Properties of the alignment-correction pass\<close>

lemma angle_zz: "vec_angle (0, 0, 1) (0, 0, 1) = Some 0"
  by (simp add: vec_angle_def)

lemma rot0: "axis_angle_matrix 0 ax = Identity3"
  by (cases ax) (simp add: axis_angle_matrix_def Identity3_def Let_def)

lemma rot_zz: "get_rot_mat_from_vecs vec_angle (\<lambda>a ax. (axis_angle_matrix a ax, (0, 0, 0))) (0, 0, 1) (0, 0, 1)
   = Inr ((Identity3, (0, 0, 0)), 0)"
  by (simp add: get_rot_mat_from_vecs_def angle_zz rot0)

lemma std_z: "get_standard_axis revolute_z = Inr (0, 0, 1)"
  by (simp add: get_standard_axis_def revolute_z_def)



lemma abs_signed: "\<bar>signed_angle d_axis d_angle\<bar> = \<bar>d_angle\<bar>"
  by (simp add: signed_angle_def)

lemma alignment_offset_result:
  assumes r: "alignment_residual mu round3 ctx = Inr (d_axis, d_angle)"
    and t: "ctx_object_type ctx \<noteq> ''EMPTY''"
  shows "alignment_offset mu round3 ctx st =
     Inr (if 0.1 < \<bar>d_angle\<bar> then
            st\<lparr>printed := (if 0.1 < vec_norm (cross d_axis (ctx_child_axis ctx))
                            then printed st @ [axis_warning] else printed st),
               transformed := transformed st @
                  [(ctx_object ctx, mu_Rotation mu (signed_angle d_axis d_angle) (ctx_constraint_axis ctx))],
               body_T_j_c := (body_T_j_c st)(ctx_child ctx \<mapsto>
                  mu_mul mu (mu_Rotation mu (signed_angle d_axis d_angle) (ctx_constraint_axis ctx))
                    (ctx_T_c_j ctx))\<rparr>
          else st)"
  using t
  by (simp add: alignment_offset_def r Let_def signed_angle_def[symmetric] abs_signed)







lemma pi_half_bounds2: "\<not> pi / 2 \<le> 0.1" "\<not> 3.13 \<le> pi / 2" "\<not> pi \<le> 1 / 5" "\<not> 313 \<le> 50 * pi"
  using pi_ge_two pi_less_4 by simp_all

lemma angle_zx2: "vec_angle (0, 0, 1) (1, 0, 0) = Some (pi / 2)" "vec_angle (1, 0, 0) (0, 0, 1) = Some (pi / 2)"
  by (simp_all add: vec_angle_def)

lemma rot_quarter_y: "axis_angle_matrix (pi / 2) (0, 1, 0) = ((0, 0, 1), (0, 1, 0), (- 1, 0, 0))"
  by (simp add: axis_angle_matrix_def Identity3_def)

lemma rot_quarter_my: "axis_angle_matrix (pi / 2) (0, - 1, 0) = ((0, 0, - 1), (0, 1, 0), (1, 0, 0))"
  by (simp add: axis_angle_matrix_def Identity3_def)

lemma rot_zx: "get_rot_mat_from_vecs vec_angle (\<lambda>a ax. (axis_angle_matrix a ax, (0, 0, 0))) (0, 0, 1) (1, 0, 0)
   = Inr ((((0, 0, 1), (0, 1, 0), (- 1, 0, 0)), (0, 0, 0)), pi / 2)"
  using pi_half_bounds2
  by (simp add: get_rot_mat_from_vecs_def angle_zx2 rot_quarter_y)

lemma rot_xz: "get_rot_mat_from_vecs vec_angle (\<lambda>a ax. (axis_angle_matrix a ax, (0, 0, 0))) (1, 0, 0) (0, 0, 1)
   = Inr ((((0, 0, - 1), (0, 1, 0), (1, 0, 0)), (0, 0, 0)), pi / 2)"
  using pi_half_bounds2
  by (simp add: get_rot_mat_from_vecs_def angle_zx2 rot_quarter_my)

lemma primary_x:
  "primary_adjust rigid_mathutils ''JOINT a-b'' revolute_x swapped_doc =
     Inr (\<lparr>ctx_child = ''BODY b'', ctx_object = ''b'', ctx_object_type = ''MESH'',
           ctx_constraint_axis = (0, 0, 1), ctx_child_axis = (1, 0, 0), ctx_parent_axis = (0, 0, 1),
           ctx_T_c_j = (((0, 0, - 1), (0, 1, 0), (1, 0, 0)), (0, - 1, 0))\<rparr>,
          swapped_doc\<lparr>ambf_data := (ambf_data swapped_doc)(''JOINT a-b'' \<mapsto>
                         revolute_x\<lparr>child_pivot := Some (0, 0, 0), child_axis := Some (0, 0, 1)\<rparr>),
                      body_T_j_c := (body_T_j_c swapped_doc)(''BODY b'' \<mapsto>
                         (((0, 0, - 1), (0, 1, 0), (1, 0, 0)), (0, - 1, 0))),
                      transformed := [(''b'', (((0, 0, - 1), (0, 1, 0), (1, 0, 0)), (0, - 1, 0)))]\<rparr>)"
proof -
  have f: "jchild revolute_x = Some ''BODY b''" "parent_axis revolute_x = Some (0, 0, 1)"
    "child_pivot revolute_x = Some (0, 1, 0)" "child_axis revolute_x = Some (1, 0, 0)"
    "get_standard_axis revolute_x = Inr (0, 0, 1)"
    by (simp_all add: revolute_x_def revolute_z_def get_standard_axis_def)
  have g: "remapped_names swapped_doc ''BODY b'' = Some ''b''" "object_types swapped_doc ''b'' = Some ''MESH''"
    "transformed swapped_doc = []"
    by (simp_all add: swapped_doc_def detached_first_doc_def)
  show ?thesis
    by (simp add: primary_adjust_def Let_def f g rigid_mathutils_def rot_zx)
qed

lemma residual_x:
  "alignment_residual rigid_mathutils round_to_3
     \<lparr>ctx_child = ''BODY b'', ctx_object = ''b'', ctx_object_type = ''MESH'',
           ctx_constraint_axis = (0, 0, 1), ctx_child_axis = (1, 0, 0), ctx_parent_axis = (0, 0, 1),
           ctx_T_c_j = (((0, 0, - 1), (0, 1, 0), (1, 0, 0)), (0, - 1, 0))\<rparr> = Inr ((1, 0, 0), 0)"
  by (simp add: alignment_residual_def rigid_mathutils_def rot_zz rot_xz Identity3_def round_to_3_def)

lemma detached_loop_props:
  "child_pivot detached_loop \<noteq> None" "is_detached_joint detached_loop"
  by (simp_all add: detached_loop_def revolute_z_def is_detached_joint_def)

lemma revolute_x_props:
  "child_pivot revolute_x = Some (0, 1, 0)" "child_axis revolute_x = Some (1, 0, 0)"
  "\<not> is_detached_joint revolute_x"
  by (simp_all add: revolute_x_def revolute_z_def is_detached_joint_def)

lemma swapped_pass:
  "adjust_body_pivots_and_axis rigid_mathutils round_to_3 swapped_doc =
     Inr (swapped_doc\<lparr>ambf_data := (ambf_data swapped_doc)(''JOINT a-b'' \<mapsto>
                         revolute_x\<lparr>child_pivot := Some (0, 0, 0), child_axis := Some (0, 0, 1)\<rparr>),
                      body_T_j_c := (body_T_j_c swapped_doc)(''BODY b'' \<mapsto>
                         (((0, 0, - 1), (0, 1, 0), (1, 0, 0)), (0, - 1, 0))),
                      transformed := [(''b'', (((0, 0, - 1), (0, 1, 0), (1, 0, 0)), (0, - 1, 0)))],
                      printed := [detached_info ''JOINT loop'']\<rparr>)"
proof -
  have l: "joint_names swapped_doc = [''JOINT a-b'', ''JOINT loop'']"
    "ambf_data swapped_doc ''JOINT loop'' = Some detached_loop"
    "ambf_data swapped_doc ''JOINT a-b'' = Some revolute_x"
    "printed swapped_doc = []"
    by (simp_all add: swapped_doc_def detached_first_doc_def)
  have a: "adjust_joint rigid_mathutils round_to_3 ''JOINT a-b'' revolute_x swapped_doc =
     Inr (swapped_doc\<lparr>ambf_data := (ambf_data swapped_doc)(''JOINT a-b'' \<mapsto>
                         revolute_x\<lparr>child_pivot := Some (0, 0, 0), child_axis := Some (0, 0, 1)\<rparr>),
                      body_T_j_c := (body_T_j_c swapped_doc)(''BODY b'' \<mapsto>
                         (((0, 0, - 1), (0, 1, 0), (1, 0, 0)), (0, - 1, 0))),
                      transformed := [(''b'', (((0, 0, - 1), (0, 1, 0), (1, 0, 0)), (0, - 1, 0)))]\<rparr>)"
    by (simp add: adjust_joint_def primary_x alignment_offset_result[OF residual_x])
  show ?thesis
    by (simp add: adjust_body_pivots_and_axis_def l a revolute_x_props detached_loop_props)
qed

text \<open>
  C2 at a document whose first joint is detached: the pass prints the line for the
  detached joint and returns. The entry of the second joint, \<open>JOINT a-b\<close>, keeps its child
  pivot and its child axis x, and no mesh is transformed. With the two joints listed in
  the other order the pass adjusts \<open>JOINT a-b\<close>: its child axis becomes the z axis and the
  mesh of its child is transformed.
\<close>

theorem detached_joint_ends_pass:
  "adjust_body_pivots_and_axis rigid_mathutils round_to_3 detached_first_doc =
     Inr (detached_first_doc\<lparr>printed := [detached_info ''JOINT loop'']\<rparr>) \<and>
   ambf_data (detached_first_doc\<lparr>printed := [detached_info ''JOINT loop'']\<rparr>) ''JOINT a-b'' =
     Some revolute_x \<and>
   transformed (detached_first_doc\<lparr>printed := [detached_info ''JOINT loop'']\<rparr>) = [] \<and>
   child_axis revolute_x = Some (1, 0, 0) \<and> \<not> is_detached_joint revolute_x \<and>
   child_pivot revolute_x = Some (0, 1, 0) \<and>
   (\<exists>st'. adjust_body_pivots_and_axis rigid_mathutils round_to_3 swapped_doc = Inr st' \<and>
      ambf_data st' ''JOINT a-b'' =
        Some (revolute_x\<lparr>child_pivot := Some (0, 0, 0), child_axis := Some (0, 0, 1)\<rparr>) \<and>
      transformed st' = [(''b'', (((0, 0, - 1), (0, 1, 0), (1, 0, 0)), (0, - 1, 0)))])"
proof -
  have l: "joint_names detached_first_doc = [''JOINT loop'', ''JOINT a-b'']"
    "ambf_data detached_first_doc ''JOINT loop'' = Some detached_loop"
    "ambf_data detached_first_doc ''JOINT a-b'' = Some revolute_x"
    "transformed detached_first_doc = []"
    "printed detached_first_doc = []"
    by (simp_all add: detached_first_doc_def)
  have "adjust_body_pivots_and_axis rigid_mathutils round_to_3 detached_first_doc =
     Inr (detached_first_doc\<lparr>printed := [detached_info ''JOINT loop'']\<rparr>)"
    by (simp add: adjust_body_pivots_and_axis_def l detached_loop_props)
  then show ?thesis
    by (simp add: l revolute_x_props swapped_pass)
qed

end
